theory Spec2Isabelle
  imports Main
begin

section \<open>Python values shared by the models\<close>

datatype py_class =
    ValueError | OSError | AssertionError | TypeError | AttributeError
  | Other_Exception string
  | SystemExit | KeyboardInterrupt | GeneratorExit
  | Other_BaseException string

fun is_Exception :: "py_class \<Rightarrow> bool" where
  \<comment> \<open>Whether \<open>except Exception\<close> catches an instance of the class: every class but
      the ones that derive from \<open>BaseException\<close> directly.\<close>
  "is_Exception SystemExit = False"
| "is_Exception KeyboardInterrupt = False"
| "is_Exception GeneratorExit = False"
| "is_Exception (Other_BaseException _) = False"
| "is_Exception _ = True"

datatype py_exception =
  Exn (exn_class: py_class) (exn_message: string) (exn_traceback: "nat list")
  \<comment> \<open>An exception object: its class, its message and the traceback it carries
      (frames as opaque numbers; a \<open>raise\<close> written in a model records none).\<close>

definition nl :: string where
  "nl = [CHR 0x0A]"

fun join :: "string \<Rightarrow> string list \<Rightarrow> string" where
  \<comment> \<open>\<open>sep.join(xs)\<close>\<close>
  "join sep [] = []"
| "join sep [x] = x"
| "join sep (x # y # ys) = x @ sep @ join sep (y # ys)"

definition digit_char :: "nat \<Rightarrow> char" where
  "digit_char d = ''0123456789'' ! (d mod 10)"

fun str_nat :: "nat \<Rightarrow> string" where
  "str_nat n = (if n < 10 then [digit_char n] else str_nat (n div 10) @ [digit_char (n mod 10)])"

declare str_nat.simps [simp del]

definition str_int :: "int \<Rightarrow> string" where
  \<comment> \<open>\<open>"{0}".format(i)\<close> for a Python integer.\<close>
  "str_int i = (if i < 0 then ''-'' @ str_nat (nat (- i)) else str_nat (nat i))"

section \<open>Stitching basket fragments into an array\<close>

text \<open>
  The decode-and-stitch code of the fixed-width interpretation (\<open>AsDtype.final_array\<close>)
  and the branch-level \<open>array\<close> entry point are exercised by
  \<open>tests/test_0017-multi-basket-multi-branch-fetch.py\<close>, but their bodies are not among
  the sources. They are modelled here from the specification's description; arrays
  are lists, entry numbers are Python integers.
\<close>

definition clip_fragment :: "'a list \<Rightarrow> int \<Rightarrow> int \<Rightarrow> int \<Rightarrow> int \<Rightarrow> 'a list" where
  \<comment> \<open>Modelled from the spec: the clipping step of \<open>final_array\<close> (numerical
      interpretation, not among the sources). The fragment covers the entries
      \<open>[lo, hi)\<close>; what is kept is its intersection with \<open>[entry_start, entry_stop)\<close>.\<close>
  "clip_fragment fragment lo hi entry_start entry_stop =
     (let first = max lo entry_start; stop = min hi entry_stop
      in if first < stop
         then take (nat (stop - first)) (drop (nat (first - lo)) fragment)
         else [])"

fun final_array :: "'a list list \<Rightarrow> int \<Rightarrow> int \<Rightarrow> int list \<Rightarrow> 'a list" where
  \<comment> \<open>Modelled from the spec: \<open>AsDtype.final_array\<close> (numerical interpretation, not
      among the sources): each fragment is clipped to its intersection with
      \<open>[entry_start, entry_stop)\<close>, the boundaries of fragment \<open>i\<close> being
      \<open>entry_offsets[i]\<close> and \<open>entry_offsets[i + 1]\<close>, and the clipped pieces are
      concatenated in basket order.\<close>
  "final_array (fragment # rest) entry_start entry_stop (lo # hi # offsets) =
     clip_fragment fragment lo hi entry_start entry_stop
       @ final_array rest entry_start entry_stop (hi # offsets)"
| "final_array _ entry_start entry_stop _ = []"

definition normalize_entry :: "int \<Rightarrow> int \<Rightarrow> int" where
  \<comment> \<open>Modelled from the spec: the range resolver's normalisation of an entry bound
      (branch code, not among the sources): a negative value adds the total, and
      the value is clamped to \<open>[0, total]\<close>.\<close>
  "normalize_entry n_total entry =
     (let e = (if entry < 0 then entry + n_total else entry)
      in max 0 (min n_total e))"

record 'a TBranch_data =
  num_entries :: int
  entry_offsets :: "int list"
  basket_arrays :: "'a list list"
  \<comment> \<open>Modelled from the spec: what \<open>array\<close> reads of a branch (branch code, not among
      the sources): the total entry count, the entry boundaries of the baskets and
      the decoded array of each basket, in basket order.\<close>

definition array :: "'a TBranch_data \<Rightarrow> int \<Rightarrow> int \<Rightarrow> 'a list" where
  \<comment> \<open>Modelled from the spec: \<open>TBranch.array\<close> (branch code, not among the
      sources), with the trivial executors: the bounds are normalised against the
      branch's total entry count and the decoded baskets are stitched.\<close>
  "array br entry_start entry_stop =
     final_array (basket_arrays br)
       (normalize_entry (num_entries br) entry_start)
       (normalize_entry (num_entries br) entry_stop)
       (entry_offsets br)"

definition py_slice :: "'a list \<Rightarrow> int \<Rightarrow> int \<Rightarrow> 'a list" where
  \<comment> \<open>Python's \<open>xs[start:stop]\<close> for bounds already in \<open>[0, len(xs)]\<close>.\<close>
  "py_slice xs start stop = take (nat (stop - start)) (drop (nat start) xs)"

fun offsets_from :: "int \<Rightarrow> 'a list list \<Rightarrow> int list" where
  \<comment> \<open>The entry boundaries of consecutive baskets, the first starting at \<open>first\<close>.\<close>
  "offsets_from first [] = [first]"
| "offsets_from first (fragment # rest) =
     first # offsets_from (first + int (length fragment)) rest"

definition consistent_branch :: "'a TBranch_data \<Rightarrow> bool" where
  \<comment> \<open>The branch metadata describes its baskets: contiguous entry ranges from 0,
      and a total entry count that is the last boundary.\<close>
  "consistent_branch br \<longleftrightarrow>
     entry_offsets br = offsets_from 0 (basket_arrays br) \<and>
     num_entries br = int (length (concat (basket_arrays br)))"

definition stitching_test_branch :: "int TBranch_data" where
  \<comment> \<open>The fragments and offsets of \<open>test_stitching_arrays\<close>.\<close>
  "stitching_test_branch =
     \<lparr> num_entries = 15,
       entry_offsets = [0, 5, 7, 7, 10, 11, 15],
       basket_arrays = [[0, 1, 2, 3, 4], [5, 6], [], [7, 8, 9], [10], [11, 12, 13, 14]] \<rparr>"

definition sample_i4_branch :: "int TBranch_data" where
  \<comment> \<open>Branch \<open>sample/i4\<close> as \<open>test_any_basket\<close> reads it: five baskets holding
      \<open>-15..14\<close>, seven entries each but the last, which has two.\<close>
  "sample_i4_branch =
     \<lparr> num_entries = 30,
       entry_offsets = [0, 7, 14, 21, 28, 30],
       basket_arrays = [[-15, -14, -13, -12, -11, -10, -9], [-8, -7, -6, -5, -4, -3, -2],
                        [-1, 0, 1, 2, 3, 4, 5], [6, 7, 8, 9, 10, 11, 12], [13, 14]] \<rparr>"

definition spec_example_branch :: "int TBranch_data" where
  \<comment> \<open>The same baskets under the boundaries and the entry count the specification's
      example states: \<open>0, 7, 14, 21, 28, 29\<close> and 29 entries.\<close>
  "spec_example_branch =
     \<lparr> num_entries = 29,
       entry_offsets = [0, 7, 14, 21, 28, 29],
       basket_arrays = [[-15, -14, -13, -12, -11, -10, -9], [-8, -7, -6, -5, -4, -3, -2],
                        [-1, 0, 1, 2, 3, 4, 5], [6, 7, 8, 9, 10, 11, 12], [13, 14]] \<rparr>"

section \<open>Cache keys\<close>

text \<open>
  The keys of files, objects, branches and array requests are built by code that is
  not among the sources; \<open>test_cache\<close> fixes four of them. The interpretation's part
  of an array key is the interpretation's own \<open>cache_key\<close>; the one of the grouped
  interpretation is in \<open>interpretation/grouped.py\<close> and is given with that class below.
\<close>

definition file_cache_key :: "string \<Rightarrow> string \<Rightarrow> string" where
  \<comment> \<open>Modelled from the spec: the file-level key \<open><file-uuid>:<path>\<close> (file code, not
      among the sources).\<close>
  "file_cache_key file_uuid path = file_uuid @ '':'' @ path"

definition object_cache_key :: "string \<Rightarrow> string \<Rightarrow> int \<Rightarrow> string" where
  \<comment> \<open>Modelled from the spec: the object-level key \<open><file-uuid>:<path>;<cycle>\<close> (object
      code, not among the sources).\<close>
  "object_cache_key file_uuid path cycle = file_uuid @ '':'' @ path @ '';'' @ str_int cycle"

definition branch_segment :: "string \<Rightarrow> int \<Rightarrow> string" where
  \<comment> \<open>Modelled from the spec: the segment \<open><branch-name>(<type-id>)\<close> of a key (branch
      code, not among the sources).\<close>
  "branch_segment branch_name type_id = branch_name @ ''('' @ str_int type_id @ '')''"

definition key_for ::
  "string \<Rightarrow> string \<Rightarrow> int \<Rightarrow> string \<Rightarrow> int \<Rightarrow> string \<Rightarrow> int \<Rightarrow> int \<Rightarrow> string \<Rightarrow> string" where
  \<comment> \<open>Modelled from the spec: \<open>key_for\<close>, the key of an array request (branch code,
      not among the sources), following the grammar
      \<open><file-uuid>:<object-path>;<cycle>:<branch-name>(<type-id>):<interpretation-signature>:<entry_start>-<entry_stop>:<output-library-tag>\<close>.\<close>
  "key_for file_id object_path cycle branch_name type_id interpretation_id
       entry_start entry_stop output_library =
     concat [file_id, '':'', object_path, '';'', str_int cycle, '':'',
             branch_name, ''('', str_int type_id, '')'', '':'',
             interpretation_id, '':'',
             str_int entry_start, ''-'', str_int entry_stop, '':'',
             output_library]"

subsection \<open>Reading a key back\<close>

text \<open>
  The grammar of the array key, as a recogniser written from the grammar alone: it
  cuts a string at the delimiters the grammar names, reads the four numbers as
  decimal integers, and answers with the nine fields, or with None when the string is
  not a sentence of the grammar. The file id, the path, the cycle, the branch name
  and the type id are found from the left, up to the first \<open>:\<close>, \<open>;\<close>, \<open>:\<close>, \<open>(\<close> and \<open>)\<close>;
  the library tag and the entry range from the right, after the last \<open>:\<close>; what lies
  between is the interpretation's signature, which may itself hold delimiters.
\<close>

record array_request =
  req_file_id :: string
  req_object_path :: string
  req_cycle :: int
  req_branch_name :: string
  req_type_id :: int
  req_interpretation_id :: string
  req_entry_start :: int
  req_entry_stop :: int
  req_output_library :: string

definition key_of_request :: "array_request \<Rightarrow> string" where
  \<comment> \<open>\<open>key_for\<close> on the parameters of a request held together.\<close>
  "key_of_request r =
     key_for (req_file_id r) (req_object_path r) (req_cycle r) (req_branch_name r) (req_type_id r)
       (req_interpretation_id r) (req_entry_start r) (req_entry_stop r) (req_output_library r)"

definition is_digit :: "char \<Rightarrow> bool" where
  "is_digit c \<longleftrightarrow> c \<in> set ''0123456789''"

definition digit_value :: "char \<Rightarrow> nat" where
  "digit_value c = of_char c - 48"

definition read_nat :: "string \<Rightarrow> nat option" where
  "read_nat s =
     (if s \<noteq> [] \<and> list_all is_digit s
      then Some (foldl (\<lambda>n c. 10 * n + digit_value c) 0 s)
      else None)"

definition read_int :: "string \<Rightarrow> int option" where
  \<comment> \<open>A decimal integer: digits, after an optional minus sign.\<close>
  "read_int s =
     (case s of
        [] \<Rightarrow> None
      | c # digits \<Rightarrow>
          if c = CHR ''-'' then map_option (\<lambda>n. - int n) (read_nat digits)
          else map_option int (read_nat s))"

fun split_first :: "char \<Rightarrow> string \<Rightarrow> (string \<times> string) option" where
  "split_first c [] = None"
| "split_first c (x # xs) =
     (if x = c then Some ([], xs)
      else map_option (\<lambda>(front, back). (x # front, back)) (split_first c xs))"

definition split_last :: "char \<Rightarrow> string \<Rightarrow> (string \<times> string) option" where
  \<comment> \<open>The string cut at the last \<open>c\<close>, as \<open>split_first\<close> cuts it at the first.\<close>
  "split_last c s = map_option (\<lambda>(back, front). (rev front, rev back)) (split_first c (rev s))"

definition parse_range :: "string \<Rightarrow> (int \<times> int) option" where
  \<comment> \<open>\<open><entry_start>-<entry_stop>\<close>\<close>
  "parse_range s =
     (case split_last CHR ''-'' s of
        None \<Rightarrow> None
      | Some (start, stop) \<Rightarrow>
          (case (read_int start, read_int stop) of
             (Some entry_start, Some entry_stop) \<Rightarrow> Some (entry_start, entry_stop)
           | _ \<Rightarrow> None))"

definition parse_request_part :: "string \<Rightarrow> (string \<times> int \<times> int \<times> string) option" where
  \<comment> \<open>\<open><interpretation-signature>:<entry_start>-<entry_stop>:<output-library-tag>\<close>\<close>
  "parse_request_part s =
     (case split_last CHR '':'' s of
        None \<Rightarrow> None
      | Some (whole, library) \<Rightarrow>
          (case split_last CHR '':'' whole of
             None \<Rightarrow> None
           | Some (signature, bounds) \<Rightarrow>
               (case parse_range bounds of
                  None \<Rightarrow> None
                | Some (entry_start, entry_stop) \<Rightarrow>
                    Some (signature, entry_start, entry_stop, library))))"

definition parse_branch_part :: "string \<Rightarrow> (string \<times> int \<times> string) option" where
  \<comment> \<open>\<open><branch-name>(<type-id>):\<close> and what follows it.\<close>
  "parse_branch_part s =
     (case split_first CHR ''('' s of
        None \<Rightarrow> None
      | Some (branch_name, rest) \<Rightarrow>
          (case split_first CHR '')'' rest of
             None \<Rightarrow> None
           | Some (type_id, rest') \<Rightarrow>
               (case (read_int type_id, rest') of
                  (Some t, c # request_part) \<Rightarrow>
                    if c = CHR '':'' then Some (branch_name, t, request_part) else None
                | _ \<Rightarrow> None)))"

definition parse_object_part :: "string \<Rightarrow> (string \<times> string \<times> int \<times> string) option" where
  \<comment> \<open>\<open><file-uuid>:<object-path>;<cycle>:\<close> and what follows it.\<close>
  "parse_object_part s =
     (case split_first CHR '':'' s of
        None \<Rightarrow> None
      | Some (file_uuid, rest) \<Rightarrow>
          (case split_first CHR '';'' rest of
             None \<Rightarrow> None
           | Some (path, rest') \<Rightarrow>
               (case split_first CHR '':'' rest' of
                  None \<Rightarrow> None
                | Some (cycle, branch_part) \<Rightarrow>
                    (case read_int cycle of
                       None \<Rightarrow> None
                     | Some c \<Rightarrow> Some (file_uuid, path, c, branch_part)))))"

definition parse_key :: "string \<Rightarrow> array_request option" where
  \<comment> \<open>Modelled from the spec: the grammar of the cache key of an array request,
      \<open><file-uuid>:<object-path>;<cycle>:<branch-name>(<type-id>):<interpretation-signature>:<entry_start>-<entry_stop>:<output-library-tag>\<close>,
      read from a string.\<close>
  "parse_key s =
     (case parse_object_part s of
        None \<Rightarrow> None
      | Some (file_uuid, path, cycle, branch_part) \<Rightarrow>
          (case parse_branch_part branch_part of
             None \<Rightarrow> None
           | Some (branch_name, type_id, request_part) \<Rightarrow>
               (case parse_request_part request_part of
                  None \<Rightarrow> None
                | Some (signature, entry_start, entry_stop, library) \<Rightarrow>
                    Some \<lparr> req_file_id = file_uuid, req_object_path = path, req_cycle = cycle,
                           req_branch_name = branch_name, req_type_id = type_id,
                           req_interpretation_id = signature, req_entry_start = entry_start,
                           req_entry_stop = entry_stop, req_output_library = library \<rparr>)))"

definition unambiguous_request :: "array_request \<Rightarrow> bool" where
  \<comment> \<open>The fields keep clear of the delimiter that ends them: no \<open>:\<close> in the file
      id nor in the library tag, no \<open>;\<close> in the path, no \<open>(\<close> in the branch name, and
      an entry stop that is not negative, as a resolved one is.\<close>
  "unambiguous_request r \<longleftrightarrow>
     CHR '':'' \<notin> set (req_file_id r) \<and> CHR '';'' \<notin> set (req_object_path r)
     \<and> CHR ''('' \<notin> set (req_branch_name r) \<and> CHR '':'' \<notin> set (req_output_library r)
     \<and> 0 \<le> req_entry_stop r"

definition test_cache_request :: array_request where
  \<comment> \<open>The request of \<open>test_cache\<close>: all 30 entries of \<open>sample/i4\<close> as \<open>AsDtype(">i4")\<close>
      for NumPy.\<close>
  "test_cache_request =
     \<lparr> req_file_id = ''db4be408-93ad-11ea-9027-d201a8c0beef'', req_object_path = ''/sample'',
       req_cycle = 1, req_branch_name = ''i4'', req_type_id = 16,
       req_interpretation_id = ''AsDtype(Bi4(),Li4())'', req_entry_start = 0,
       req_entry_stop = 30, req_output_library = ''np'' \<rparr>"

section \<open>The grouped interpretation\<close>

text \<open>
  \<open>interpretation/grouped.py\<close>. The branch of a group is read for its name, the path
  of its file and its object path only. The subbranches are a dictionary from names
  to interpretations, held in insertion order; of each interpretation the model
  keeps its \<open>cache_key\<close>. Python's built-in \<open>repr\<close> on strings is a parameter.
\<close>

record ReadOnlyFile =
  file_path :: string
  \<comment> \<open>An object that has a \<open>file_path\<close>: the file of a branch here, and the base of
      the resources of the worker pools.\<close>

record TBranch =
  name :: string
  file' :: ReadOnlyFile
  object_path :: string

record AsGrouped =
  branch :: TBranch
  subbranches :: "(string \<times> string) list"
  typename :: "string option"

definition AsGrouped_cache_key :: "(string \<Rightarrow> string) \<Rightarrow> AsGrouped \<Rightarrow> string" where
  \<comment> \<open>\<open>"{0}({1},[{2}])".format(type(self).__name__, self._branch.name, ",".join(...))\<close>\<close>
  "AsGrouped_cache_key repr self =
     ''AsGrouped'' @ ''('' @ name (branch self) @ '',[''
       @ join '','' (map (\<lambda>(x, y). repr x @ '':'' @ y) (subbranches self))
       @ ''])''"

definition read_directly_message :: "(string \<Rightarrow> string) \<Rightarrow> AsGrouped \<Rightarrow> string" where
  \<comment> \<open>The message both refusals format.\<close>
  "read_directly_message repr self =
     ''grouping branches like '' @ repr (name (branch self))
       @ '' should not be read directly; instead read the subbranches:'' @ nl @ nl
       @ ''    '' @ join '', '' (map (\<lambda>(x, y). repr x) (subbranches self)) @ nl @ nl
       @ ''in file '' @ file_path (file' (branch self)) @ nl
       @ ''in object '' @ object_path (branch self)"

definition AsGrouped_basket_array ::
  "(string \<Rightarrow> string) \<Rightarrow> AsGrouped \<Rightarrow> 'data \<Rightarrow> 'offsets \<Rightarrow> 'basket \<Rightarrow> 'branch \<Rightarrow> 'context
     \<Rightarrow> 'cursor \<Rightarrow> 'library \<Rightarrow> py_exception + 'array" where
  "AsGrouped_basket_array repr self data byte_offsets basket branch' context cursor_offset library =
     Inl (Exn ValueError (read_directly_message repr self) [])"

definition AsGrouped_final_array ::
  "(string \<Rightarrow> string) \<Rightarrow> AsGrouped \<Rightarrow> 'arrays \<Rightarrow> int \<Rightarrow> int \<Rightarrow> 'offsets \<Rightarrow> 'library \<Rightarrow> 'branch
     \<Rightarrow> py_exception + 'array" where
  "AsGrouped_final_array repr self basket_arrays' entry_start entry_stop entry_offsets' library branch' =
     Inl (Exn ValueError (read_directly_message repr self) [])"

definition grouped_example :: AsGrouped where
  "grouped_example =
     \<lparr> branch = \<lparr> name = ''evt'', file' = \<lparr> file_path = ''sample.root'' \<rparr>,
                  object_path = ''/sample/evt'' \<rparr>,
       subbranches = [(''i4'', ''AsDtype(Bi4(),Li4())''), (''i8'', ''AsDtype(Bi8(),Li8())'')],
       typename = None \<rparr>"

section \<open>Futures\<close>

text \<open>
  \<open>source/futures.py\<close>. A task is a function from its arguments to the value it
  returns or the exception it raises. The \<open>threading.Event\<close> of a future is its flag.
  \<open>sys.exc_info()\<close> is the triple of the class, the exception and its traceback.
\<close>

type_synonym exc_info = "py_class \<times> py_exception \<times> nat list"

definition sys_exc_info :: "py_exception \<Rightarrow> exc_info" where
  "sys_exc_info e = (exn_class e, e, exn_traceback e)"

definition with_traceback :: "py_exception \<Rightarrow> nat list \<Rightarrow> py_exception" where
  "with_traceback e tb = Exn (exn_class e) (exn_message e) tb"

definition delayed_raise :: "bool \<Rightarrow> py_class \<Rightarrow> py_exception \<Rightarrow> nat list \<Rightarrow> py_exception + 'v" where
  \<comment> \<open>\<open>py2\<close> is \<open>uproot4._util.py2\<close>. Python 2's three-expression \<open>raise\<close> raises the
      value when it is an instance of the class and the class applied to the value
      otherwise; Python 3 raises the value.\<close>
  "delayed_raise py2 exception_class exception_value traceback =
     (if py2
      then Inl (if exn_class exception_value = exception_class
                then with_traceback exception_value traceback
                else Exn exception_class (exn_message exception_value) traceback)
      else Inl (with_traceback exception_value traceback))"

subsection \<open>Trivial futures and executor\<close>

datatype py_value = PyNone | PyInt int | NoFuture py_value
  \<comment> \<open>The objects the tasks of the examples return; \<open>NoFuture r\<close> is the object
      \<open>NoFuture(r)\<close>, whose \<open>_result\<close> is \<open>r\<close>.\<close>

fun call_result :: "py_value \<Rightarrow> 't option \<Rightarrow> py_exception + py_value" where
  \<comment> \<open>\<open>x.result(timeout)\<close>: \<open>NoFuture.result\<close> on a \<open>NoFuture\<close>; an integer and None have
      no attribute \<open>result\<close>.\<close>
  "call_result (NoFuture r) timeout = Inr r"
| "call_result (PyInt i) timeout = Inl (Exn AttributeError ''int object has no attribute result'' [])"
| "call_result PyNone timeout = Inl (Exn AttributeError ''NoneType object has no attribute result'' [])"

definition TrivialExecutor_submit :: "('a \<Rightarrow> py_exception + 'v) \<Rightarrow> 'a \<Rightarrow> py_exception + 'v" where
  \<comment> \<open>\<open>return task(*args)\<close>\<close>
  "TrivialExecutor_submit task args = task args"

definition TrivialExecutor_shutdown :: "'e \<Rightarrow> bool \<Rightarrow> 'e" where
  "TrivialExecutor_shutdown self wait = self"

subsection \<open>Futures of the thread pools\<close>

record ('a, 'v) Future =
  task :: "'a \<Rightarrow> py_exception + 'v"
  args :: "'a option"
  finished :: bool
  result_value :: "'v option"
  excinfo :: "exc_info option"

definition Future_init :: "('a \<Rightarrow> py_exception + 'v) \<Rightarrow> 'a option \<Rightarrow> ('a, 'v) Future" where
  "Future_init t a =
     \<lparr> task = t, args = a, finished = False, result_value = None, excinfo = None \<rparr>"

definition Event_wait :: "bool \<Rightarrow> 't option \<Rightarrow> bool option" where
  \<comment> \<open>\<open>threading.Event.wait(timeout)\<close>, by the flag at the moment the wait ends: the
      call returns True once the flag is set; with the flag unset it returns False
      when the timeout has run out, and never without a timeout.\<close>
  "Event_wait flag timeout =
     (if flag then Some True
      else (case timeout of None \<Rightarrow> None | Some _ \<Rightarrow> Some False))"

definition Future_result ::
  "bool \<Rightarrow> ('a, 'v, 'm) Future_scheme \<Rightarrow> 't option \<Rightarrow> (py_exception + 'v option) option" where
  \<comment> \<open>\<open>self\<close> is the future as it is when the wait ends. The result is None when the
      call never returns, \<open>Some (Inr r)\<close> when it returns \<open>r\<close> (the \<open>_result\<close>, Python's
      None before a task has set it) and \<open>Some (Inl e)\<close> when it raises \<open>e\<close>.\<close>
  "Future_result py2 self timeout =
     (case Event_wait (finished self) timeout of
        None \<Rightarrow> None
      | Some _ \<Rightarrow>
          Some (case excinfo self of
                  None \<Rightarrow> Inr (result_value self)
                | Some (exception_class, exception_value, traceback) \<Rightarrow>
                    delayed_raise py2 exception_class exception_value traceback))"

definition apply_star :: "('a \<Rightarrow> py_exception + 'v) \<Rightarrow> 'a option \<Rightarrow> py_exception + 'v" where
  \<comment> \<open>\<open>task(*args)\<close>: unpacking None raises a \<open>TypeError\<close>.\<close>
  "apply_star t a =
     (case a of
        None \<Rightarrow> Inl (Exn TypeError ''argument after * must be an iterable, not NoneType'' [])
      | Some xs \<Rightarrow> t xs)"

definition Future_run ::
  "('a, 'v, 'm) Future_scheme \<Rightarrow> ('a, 'v, 'm) Future_scheme \<times> py_exception option" where
  \<comment> \<open>The future after \<open>_run\<close>, and the exception that leaves \<open>_run\<close>, if one does:
      \<open>except Exception\<close> lets the other classes through, before the flag is set.\<close>
  "Future_run self =
     (case apply_star (task self) (args self) of
        Inr v \<Rightarrow> (self\<lparr>result_value := Some v, finished := True\<rparr>, None)
      | Inl e \<Rightarrow>
          if is_Exception (exn_class e)
          then (self\<lparr>excinfo := Some (sys_exc_info e), finished := True\<rparr>, None)
          else (self, Some e))"

subsection \<open>Futures bound to a resource\<close>

record ('r, 'v, 'w) ResourceFuture = "('r, 'v) Future" +
  notify :: "('w \<Rightarrow> 'w) option"
  \<comment> \<open>The callback, as what it does to the state \<open>'w\<close> it acts on.\<close>

definition ResourceFuture_init :: "('r \<Rightarrow> py_exception + 'v) \<Rightarrow> ('r, 'v, 'w) ResourceFuture" where
  "ResourceFuture_init t =
     \<lparr> task = t, args = None, finished = False, result_value = None, excinfo = None,
       notify = None \<rparr>"


definition call_notify :: "('r, 'v, 'w) ResourceFuture \<Rightarrow> 'w \<Rightarrow> 'w" where
  \<comment> \<open>\<open>if self._notify is not None: self._notify()\<close>\<close>
  "call_notify self w = (case notify self of None \<Rightarrow> w | Some n \<Rightarrow> n w)"


definition ResourceFuture_run ::
  "'r \<Rightarrow> ('r, 'v, 'w) ResourceFuture \<times> 'w
     \<Rightarrow> (('r, 'v, 'w) ResourceFuture \<times> 'w) \<times> py_exception option" where
  "ResourceFuture_run resource = (\<lambda>(self, w).
     case task self resource of
       Inr v \<Rightarrow>
         (let self' = self\<lparr>result_value := Some v, finished := True\<rparr>
          in ((self', call_notify self' w), None))
     | Inl e \<Rightarrow>
         if is_Exception (exn_class e)
         then (let self' = self\<lparr>excinfo := Some (sys_exc_info e), finished := True\<rparr>
               in ((self', call_notify self' w), None))
         else ((self, w), Some e))"

subsection \<open>Tasks of the examples\<close>

definition increment_task :: "int \<Rightarrow> py_exception + int" where
  \<comment> \<open>\<open>lambda x: x + 1\<close>\<close>
  "increment_task x = Inr (x + 1)"

definition boxed_increment_task :: "int \<Rightarrow> py_exception + py_value" where
  \<comment> \<open>The same task, its value as a Python object.\<close>
  "boxed_increment_task x = Inr (PyInt (x + 1))"

definition failing_task :: "int \<Rightarrow> py_exception + int" where
  \<comment> \<open>A task that raises a \<open>ValueError\<close>, whose traceback is the frame 7.\<close>
  "failing_task x = Inl (Exn ValueError ''bad value'' [7])"

definition exiting_task :: "int \<Rightarrow> py_exception + int" where
  \<comment> \<open>A task that calls \<open>sys.exit()\<close>.\<close>
  "exiting_task x = Inl (Exn SystemExit [] [7])"

section \<open>Workers and executors\<close>

text \<open>
  The futures live in a heap and are named by their index in it; the work queue holds
  such references, and None is the sentinel that stops a worker. A worker is a thread
  that is alive from \<open>start()\<close> until its \<open>run\<close> ends; a \<open>ResourceWorker\<close> is a worker
  bound to a resource. The executor's record carries, besides its queue and its
  workers, the heap and the state the notification callbacks act on: the memory its
  threads work in.
\<close>

record Resource = ReadOnlyFile +
  is_open :: bool
  \<comment> \<open>Modelled from the spec: \<open>Resource\<close> (source.chunk, not among the sources), an
      owned I/O handle on a file; of it the pool reads \<open>file_path\<close> and calls
      \<open>__enter__\<close> and \<open>__exit__\<close>.\<close>

definition Resource_enter :: "Resource \<Rightarrow> Resource" where
  \<comment> \<open>Modelled from the spec: \<open>Resource.__enter__\<close> (source.chunk, not among the
      sources) acquires the resource, opening its file handle.\<close>
  "Resource_enter r = r\<lparr>is_open := True\<rparr>"

definition Resource_exit :: "Resource \<Rightarrow> Resource" where
  \<comment> \<open>Modelled from the spec: \<open>Resource.__exit__\<close> (source.chunk, not among the
      sources) releases the resource, closing its I/O handle.\<close>
  "Resource_exit r = r\<lparr>is_open := False\<rparr>"

datatype ('a, 'v, 'w) py_object =
    A_Future "('a, 'v) Future"
  | A_ResourceFuture "(Resource, 'v, 'w) ResourceFuture"

record Worker =
  alive :: bool
  bound_resource :: "Resource option"
  \<comment> \<open>None for a \<open>Worker\<close>, the \<open>_resource\<close> for a \<open>ResourceWorker\<close>.\<close>

record ('a, 'v, 'w) ThreadPoolExecutor =
  work_queue :: "nat option list"
  workers :: "Worker list"
  heap :: "('a, 'v, 'w) py_object list"
  world :: 'w

record ('a, 'v, 'w) ResourceThreadPoolExecutor = "('a, 'v, 'w) ThreadPoolExecutor" +
  closed :: bool

definition lookup :: "('a, 'v, 'w, 'm) ThreadPoolExecutor_scheme \<Rightarrow> nat \<Rightarrow> ('a, 'v, 'w) py_object option" where
  "lookup s ref = (if ref < length (heap s) then Some (heap s ! ref) else None)"

definition stop_worker :: "nat \<Rightarrow> Worker list \<Rightarrow> Worker list" where
  \<comment> \<open>The thread of worker \<open>i\<close> ends.\<close>
  "stop_worker i ws = (if i < length ws then ws[i := (ws ! i)\<lparr>alive := False\<rparr>] else ws)"

definition Worker_step ::
  "nat \<Rightarrow> ('a, 'v, 'w, 'm) ThreadPoolExecutor_scheme \<Rightarrow> ('a, 'v, 'w, 'm) ThreadPoolExecutor_scheme" where
  \<comment> \<open>One turn of the loop of \<open>Worker.run\<close> or \<open>ResourceWorker.run\<close> in the thread of
      worker \<open>i\<close>. On an empty queue \<open>get\<close> blocks, and nothing changes. An exception
      that leaves the loop (a failed \<open>assert\<close>, or what \<open>_run\<close> lets through) ends the
      thread; so does, in the model, a reference that points outside the heap, which
      no Python reference does.\<close>
  "Worker_step i s =
     (if i < length (workers s) \<and> alive (workers s ! i)
      then (case work_queue s of
              [] \<Rightarrow> s
            | None # queue \<Rightarrow> s\<lparr>work_queue := queue, workers := stop_worker i (workers s)\<rparr>
            | Some ref # queue \<Rightarrow>
                (case (bound_resource (workers s ! i), lookup s ref) of
                   (None, Some (A_Future future)) \<Rightarrow>
                     (case Future_run future of
                        (future', None) \<Rightarrow>
                          s\<lparr>work_queue := queue, heap := (heap s)[ref := A_Future future']\<rparr>
                      | (future', Some e) \<Rightarrow>
                          s\<lparr>work_queue := queue, heap := (heap s)[ref := A_Future future'],
                            workers := stop_worker i (workers s)\<rparr>)
                 | (Some resource, Some (A_ResourceFuture future)) \<Rightarrow>
                     (case ResourceFuture_run resource (future, world s) of
                        ((future', w'), None) \<Rightarrow>
                          s\<lparr>work_queue := queue, heap := (heap s)[ref := A_ResourceFuture future'],
                            world := w'\<rparr>
                      | ((future', w'), Some e) \<Rightarrow>
                          s\<lparr>work_queue := queue, heap := (heap s)[ref := A_ResourceFuture future'],
                            world := w', workers := stop_worker i (workers s)\<rparr>)
                 | _ \<Rightarrow> s\<lparr>work_queue := queue, workers := stop_worker i (workers s)\<rparr>))
      else s)"

definition Worker_steps ::
  "nat list \<Rightarrow> ('a, 'v, 'w, 'm) ThreadPoolExecutor_scheme \<Rightarrow> ('a, 'v, 'w, 'm) ThreadPoolExecutor_scheme" where
  \<comment> \<open>The worker threads take turns in the given order.\<close>
  "Worker_steps turns s = fold Worker_step turns s"

subsection \<open>The thread pool\<close>

definition ThreadPoolExecutor_init ::
  "int \<Rightarrow> int option \<Rightarrow> ('a, 'v, 'w) py_object list \<Rightarrow> 'w \<Rightarrow> ('a, 'v, 'w) ThreadPoolExecutor" where
  \<comment> \<open>\<open>cpu_count\<close> is what \<open>os.cpu_count()\<close> returns; the last two arguments are the
      memory the pool is created in.\<close>
  "ThreadPoolExecutor_init cpu_count num_workers heap0 world0 =
     (let n = (case num_workers of None \<Rightarrow> cpu_count | Some k \<Rightarrow> k)
      in \<lparr> work_queue = [],
           workers = replicate (nat n) \<lparr> alive = True, bound_resource = None \<rparr>,
           heap = heap0, world = world0 \<rparr>)"

definition ThreadPoolExecutor_submit ::
  "('a \<Rightarrow> py_exception + 'v) \<Rightarrow> 'a \<Rightarrow> ('a, 'v, 'w, 'm) ThreadPoolExecutor_scheme
     \<Rightarrow> nat \<times> ('a, 'v, 'w, 'm) ThreadPoolExecutor_scheme" where
  \<comment> \<open>The reference to the new future, and the pool with the future on its queue.\<close>
  "ThreadPoolExecutor_submit t a s =
     (let future = length (heap s)
      in (future, s\<lparr>heap := heap s @ [A_Future (Future_init t (Some a))],
                     work_queue := work_queue s @ [Some future]\<rparr>))"

datatype shutdown_pc = For_worker nat | Put_sentinel nat | Any_alive nat | Sleep

fun shutdown_from ::
  "nat list list \<Rightarrow> shutdown_pc \<Rightarrow> ('a, 'v, 'w, 'm) ThreadPoolExecutor_scheme
     \<Rightarrow> ('a, 'v, 'w, 'm) ThreadPoolExecutor_scheme option" where
  \<comment> \<open>The loop of \<open>shutdown\<close>, from a point in its body. The thread that runs it is one
      among the workers': before each of its actions the workers take the turns the
      schedule gives next. \<open>For_worker k\<close> tests \<open>is_alive()\<close> of worker \<open>k\<close> in the
      \<open>for\<close> loop and \<open>Put_sentinel k\<close> is the \<open>put(None)\<close> that follows; \<open>Any_alive k\<close>
      tests worker \<open>k\<close> in the \<open>any(...)\<close>; \<open>Sleep\<close> is the \<open>time.sleep\<close>. The result is
      the pool when \<open>shutdown\<close> returns, and None when it has not returned by the end
      of the schedule.\<close>
  "shutdown_from [] pc s = None"
| "shutdown_from (turns # schedule) pc s =
     (let s' = Worker_steps turns s
      in case pc of
           For_worker k \<Rightarrow>
             if k < length (workers s')
             then (if alive (workers s' ! k)
                   then shutdown_from schedule (Put_sentinel k) s'
                   else shutdown_from schedule (For_worker (Suc k)) s')
             else shutdown_from schedule (Any_alive 0) s'
         | Put_sentinel k \<Rightarrow>
             shutdown_from schedule (For_worker (Suc k)) (s'\<lparr>work_queue := work_queue s' @ [None]\<rparr>)
         | Any_alive k \<Rightarrow>
             if k < length (workers s')
             then (if alive (workers s' ! k)
                   then shutdown_from schedule Sleep s'
                   else shutdown_from schedule (Any_alive (Suc k)) s')
             else Some s'
         | Sleep \<Rightarrow> shutdown_from schedule (For_worker 0) s')"

fun stopped_so_far :: "shutdown_pc \<Rightarrow> ('a, 'v, 'w, 'm) ThreadPoolExecutor_scheme \<Rightarrow> bool" where
  \<comment> \<open>What \<open>shutdown\<close> has seen at a point of its loop: in the \<open>any(...)\<close>, the workers
      before the one under test have answered that they are not alive.\<close>
  "stopped_so_far (Any_alive k) s = list_all (\<lambda>w. \<not> alive w) (take k (workers s))"
| "stopped_so_far _ s = True"

definition shutdown ::
  "nat list list \<Rightarrow> ('a, 'v, 'w, 'm) ThreadPoolExecutor_scheme
     \<Rightarrow> ('a, 'v, 'w, 'm) ThreadPoolExecutor_scheme option" where
  "shutdown schedule s = shutdown_from schedule (For_worker 0) s"

subsection \<open>A schedule under which shutdown returns\<close>

definition worker_turns :: "nat \<Rightarrow> nat \<Rightarrow> nat list" where
  \<comment> \<open>Each of the workers \<open>0, ..., n_workers - 1\<close> in order takes \<open>n_turns\<close> turns.\<close>
  "worker_turns n_workers n_turns = concat (map (replicate n_turns) [0..<n_workers])"

definition patient_schedule :: "('a, 'v, 'w, 'm) ThreadPoolExecutor_scheme \<Rightarrow> nat list list" where
  \<comment> \<open>Before each action of \<open>shutdown\<close> every worker gets as many turns as the queue
      can ever hold items: the items it holds now and one sentinel per worker.\<close>
  "patient_schedule s =
     (let n = length (workers s)
      in replicate (3 * n + 2) (worker_turns n (length (work_queue s) + n)))"

fun entries_needed :: "nat \<Rightarrow> shutdown_pc \<Rightarrow> nat" where
  \<comment> \<open>How many actions \<open>shutdown\<close> is from returning, at most, once no worker is alive
      when the \<open>any(...)\<close> tests it; \<open>n\<close> is the number of workers.\<close>
  "entries_needed n (For_worker k) = 2 * (n - k) + n + 2"
| "entries_needed n (Put_sentinel k) = 2 * (n - k) + n + 1"
| "entries_needed n (Any_alive k) = n - k + 1"
| "entries_needed n Sleep = 0"

fun on_course :: "nat \<Rightarrow> shutdown_pc \<Rightarrow> ('a, 'v, 'w, 'm) ThreadPoolExecutor_scheme \<Rightarrow> bool" where
  \<comment> \<open>The state of a first pass of the loop under the patient schedule: the workers
      before the one under test have ended, but for the last one, which may still
      have its sentinel ahead of it on the queue; \<open>l\<close> is the length the queue had
      when \<open>shutdown\<close> began.\<close>
  "on_course l (For_worker k) s =
     (k \<le> length (workers s)
      \<and> (\<forall>j. Suc j < k \<longrightarrow> \<not> alive (workers s ! j))
      \<and> (0 < k \<longrightarrow> \<not> alive (workers s ! (k - 1)) \<or> None \<in> set (work_queue s))
      \<and> length (work_queue s) \<le> l + k)"
| "on_course l (Put_sentinel k) s =
     (k < length (workers s)
      \<and> (\<forall>j<k. \<not> alive (workers s ! j))
      \<and> length (work_queue s) \<le> l + k)"
| "on_course l (Any_alive k) s = (\<forall>j<length (workers s). \<not> alive (workers s ! j))"
| "on_course l Sleep s = False"

subsection \<open>The pool of workers bound to resources\<close>

definition ResourceThreadPoolExecutor_init ::
  "Resource list \<Rightarrow> ('a, 'v, 'w) py_object list \<Rightarrow> 'w
     \<Rightarrow> py_exception + ('a, 'v, 'w) ResourceThreadPoolExecutor" where
  "ResourceThreadPoolExecutor_init resources heap0 world0 =
     (if length resources < 1
      then Inl (Exn ValueError ''at least one worker is required'' [])
      else Inr \<lparr> work_queue = [],
                 workers = map (\<lambda>resource. \<lparr> alive = True, bound_resource = Some resource \<rparr>) resources,
                 heap = heap0, world = world0, closed = False \<rparr>)"

definition closed_error :: "('a, 'v, 'w) ResourceThreadPoolExecutor \<Rightarrow> py_exception" where
  \<comment> \<open>What \<open>raise OSError("resource is closed for file {0}".format(
      self._workers[0].resource.file_path))\<close> raises.\<close>
  "closed_error self =
     (case workers self of
        [] \<Rightarrow> Exn (Other_Exception ''IndexError'') ''list index out of range'' []
      | worker # _ \<Rightarrow>
          (case bound_resource worker of
             None \<Rightarrow> Exn AttributeError ''Worker object has no attribute resource'' []
           | Some resource \<Rightarrow>
               Exn OSError (''resource is closed for file '' @ file_path resource) []))"

definition ResourceThreadPoolExecutor_submit ::
  "nat \<Rightarrow> ('a, 'v, 'w) ResourceThreadPoolExecutor
     \<Rightarrow> py_exception + nat \<times> ('a, 'v, 'w) ResourceThreadPoolExecutor" where
  \<comment> \<open>\<open>future\<close> is a reference into the heap; the result is what is returned and the
      pool after the call.\<close>
  "ResourceThreadPoolExecutor_submit future self =
     (case lookup self future of
        Some (A_ResourceFuture _) \<Rightarrow>
          if closed self then Inl (closed_error self)
          else Inr (future, self\<lparr>work_queue := work_queue self @ [Some future]\<rparr>)
      | _ \<Rightarrow> Inl (Exn AssertionError [] []))"

definition release_resource :: "Worker \<Rightarrow> Worker" where
  \<comment> \<open>\<open>worker.resource.__exit__(exception_type, exception_value, traceback)\<close>\<close>
  "release_resource worker = worker\<lparr>bound_resource := map_option Resource_exit (bound_resource worker)\<rparr>"

definition ResourceThreadPoolExecutor_exit ::
  "nat list list \<Rightarrow> ('a, 'v, 'w) ResourceThreadPoolExecutor
     \<Rightarrow> ('a, 'v, 'w) ResourceThreadPoolExecutor option" where
  \<comment> \<open>\<open>__exit__\<close>: \<open>self.shutdown()\<close>, then the resources, then \<open>self._closed = True\<close>.\<close>
  "ResourceThreadPoolExecutor_exit schedule self =
     (case shutdown schedule self of
        None \<Rightarrow> None
      | Some stopped \<Rightarrow>
          Some (stopped\<lparr>workers := map release_resource (workers stopped), closed := True\<rparr>))"

definition ResourceThreadPoolExecutor_close ::
  "nat list list \<Rightarrow> ('a, 'v, 'w) ResourceThreadPoolExecutor
     \<Rightarrow> ('a, 'v, 'w) ResourceThreadPoolExecutor option" where
  \<comment> \<open>\<open>self.__exit__(None, None, None)\<close>\<close>
  "ResourceThreadPoolExecutor_close schedule self = ResourceThreadPoolExecutor_exit schedule self"

definition ResourceThreadPoolExecutor_enter ::
  "('a, 'v, 'w) ResourceThreadPoolExecutor \<Rightarrow> ('a, 'v, 'w) ResourceThreadPoolExecutor" where
  "ResourceThreadPoolExecutor_enter self =
     self\<lparr>workers := map (\<lambda>worker. worker\<lparr>bound_resource := map_option Resource_enter (bound_resource worker)\<rparr>)
                        (workers self)\<rparr>"

subsection \<open>Resources and pools of the examples\<close>

definition resource_task :: "Resource \<Rightarrow> py_exception + int" where
  \<comment> \<open>A task that reads from its resource, and fails on a closed one.\<close>
  "resource_task resource =
     (if is_open resource then Inr (int (length (file_path resource)))
      else Inl (Exn ValueError ''I/O operation on closed file'' [7]))"

definition example_resources :: "Resource list" where
  \<comment> \<open>Two handles on the same file.\<close>
  "example_resources =
     [\<lparr> file_path = ''sample.root'', is_open = True \<rparr>,
      \<lparr> file_path = ''sample.root'', is_open = True \<rparr>]"

definition example_heap :: "(int, int, nat) py_object list" where
  \<comment> \<open>A memory that holds one \<open>ResourceFuture(resource_task)\<close>, at reference 0, and one
      \<open>Future(increment_task, (41,))\<close>, at reference 1.\<close>
  "example_heap =
     [A_ResourceFuture (ResourceFuture_init resource_task),
      A_Future (Future_init increment_task (Some 41))]"

definition example_resource_pool :: "(int, int, nat) ResourceThreadPoolExecutor" where
  \<comment> \<open>What \<open>ResourceThreadPoolExecutor(example_resources)\<close> constructs in that memory.\<close>
  "example_resource_pool =
     \<lparr> work_queue = [],
       workers = [\<lparr> alive = True,
                    bound_resource = Some \<lparr> file_path = ''sample.root'', is_open = True \<rparr> \<rparr>,
                  \<lparr> alive = True,
                    bound_resource = Some \<lparr> file_path = ''sample.root'', is_open = True \<rparr> \<rparr>],
       heap = example_heap, world = 0, closed = False \<rparr>"

definition example_schedule :: "nat list list" where
  \<comment> \<open>The workers get no turn until \<open>shutdown\<close> sleeps for the first time; then worker
      0 takes two turns and worker 1 one.\<close>
  "example_schedule = [[], [], [], [], [], [], [0, 1, 0], [], [], [], [], [], []]"

definition example_busy_pool :: "(int, int, nat) ResourceThreadPoolExecutor" where
  \<comment> \<open>The pool of the example after \<open>submit\<close> of the future at reference 0.\<close>
  "example_busy_pool = example_resource_pool\<lparr>work_queue := [Some 0]\<rparr>"

definition example_stopped_pool :: "(int, int, nat) ResourceThreadPoolExecutor" where
  \<comment> \<open>That pool with the future run, the queue drained and both threads ended.\<close>
  "example_stopped_pool =
     \<lparr> work_queue = [],
       workers = [\<lparr> alive = False,
                    bound_resource = Some \<lparr> file_path = ''sample.root'', is_open = True \<rparr> \<rparr>,
                  \<lparr> alive = False,
                    bound_resource = Some \<lparr> file_path = ''sample.root'', is_open = True \<rparr> \<rparr>],
       heap = [A_ResourceFuture
                 \<lparr> task = resource_task, args = None, finished = True, result_value = Some 11,
                   excinfo = None, notify = None \<rparr>,
               A_Future (Future_init increment_task (Some 41))],
       world = 0, closed = False \<rparr>"

definition example_thread_pool :: "(int, int, nat) ThreadPoolExecutor" where
  \<comment> \<open>What \<open>ThreadPoolExecutor(1)\<close> constructs in an empty memory.\<close>
  "example_thread_pool =
     \<lparr> work_queue = [], workers = [\<lparr> alive = True, bound_resource = None \<rparr>],
       heap = [], world = 0 \<rparr>"

definition example_failing_pool :: "(int, int, nat) ThreadPoolExecutor" where
  \<comment> \<open>That pool after \<open>submit(failing_task, 41)\<close> and \<open>submit(increment_task, 41)\<close>.\<close>
  "example_failing_pool =
     \<lparr> work_queue = [Some 0, Some 1],
       workers = [\<lparr> alive = True, bound_resource = None \<rparr>],
       heap = [A_Future (Future_init failing_task (Some 41)),
               A_Future (Future_init increment_task (Some 41))],
       world = 0 \<rparr>"

definition example_exit_pool :: "(int, int, nat) ThreadPoolExecutor" where
  \<comment> \<open>That pool after \<open>submit(exiting_task, 41)\<close> and \<open>submit(increment_task, 41)\<close>.\<close>
  "example_exit_pool =
     \<lparr> work_queue = [Some 0, Some 1],
       workers = [\<lparr> alive = True, bound_resource = None \<rparr>],
       heap = [A_Future (Future_init exiting_task (Some 41)),
               A_Future (Future_init increment_task (Some 41))],
       world = 0 \<rparr>"

section \<open>Properties of the stitcher\<close>

lemma offsets_from_head: "offsets_from first fragments = first # tl (offsets_from first fragments)"
  by (cases fragments) simp_all

lemma clip_fragment_whole:
  "clip_fragment fragment lo (lo + int (length fragment)) entry_start entry_stop
     = take (nat (entry_stop - max entry_start lo)) (drop (nat (entry_start - lo)) fragment)"
  by (auto simp: clip_fragment_def Let_def max_def min_def)

lemma final_array_step:
  "final_array (fragment # rest) s e (offsets_from lo (fragment # rest))
     = clip_fragment fragment lo (lo + int (length fragment)) s e
       @ final_array rest s e (offsets_from (lo + int (length fragment)) rest)"
proof -
  obtain tl_offsets where "offsets_from (lo + int (length fragment)) rest
      = (lo + int (length fragment)) # tl_offsets"
    using offsets_from_head by blast
  then show ?thesis by simp
qed

lemma final_array_slice:
  "final_array fragments s e (offsets_from lo fragments)
     = take (nat (e - max s lo)) (drop (nat (s - lo)) (concat fragments))"
proof (induction fragments arbitrary: lo)
  case Nil
  then show ?case by simp
next
  case (Cons fragment rest)
  let ?n = "int (length fragment)"
  have drop_eq: "nat (s - lo) - length fragment = nat (s - (lo + ?n))"
    by simp
  have take_eq: "nat (e - max s lo) - (length fragment - nat (s - lo)) = nat (e - max s (lo + ?n))"
    by (simp add: max_def) arith
  have "final_array (fragment # rest) s e (offsets_from lo (fragment # rest))
      = take (nat (e - max s lo)) (drop (nat (s - lo)) fragment)
        @ take (nat (e - max s (lo + ?n))) (drop (nat (s - (lo + ?n))) (concat rest))"
    unfolding final_array_step Cons.IH clip_fragment_whole ..
  also have "\<dots> = take (nat (e - max s lo)) (drop (nat (s - lo)) (fragment @ concat rest))"
    by (simp add: drop_eq take_eq)
  finally show ?case by simp
qed


lemma normalize_entry_bounds: "0 \<le> n \<Longrightarrow> 0 \<le> normalize_entry n x \<and> normalize_entry n x \<le> n"
  by (simp add: normalize_entry_def Let_def)

text \<open>
  Claim C1. For every ordered list of per-basket fragments whose entry offsets delimit
  them, and every pair of bounds (negative ones included), the array stitched by
  \<open>final_array\<close> from the normalised bounds is the concatenation of all the baskets'
  arrays sliced to \<open>[normalize(start), normalize(stop))\<close>; when that range is empty
  the result is the empty array.
\<close>

theorem final_array_stitches_slice:
  assumes "consistent_branch br"
  shows "final_array (basket_arrays br)
             (normalize_entry (num_entries br) entry_start)
             (normalize_entry (num_entries br) entry_stop) (entry_offsets br)
           = py_slice (concat (basket_arrays br))
               (normalize_entry (num_entries br) entry_start)
               (normalize_entry (num_entries br) entry_stop)
         \<and> array br entry_start entry_stop
           = py_slice (concat (basket_arrays br))
               (normalize_entry (num_entries br) entry_start)
               (normalize_entry (num_entries br) entry_stop)
         \<and> (normalize_entry (num_entries br) entry_stop
                \<le> normalize_entry (num_entries br) entry_start
              \<longrightarrow> array br entry_start entry_stop = [])"
proof -
  let ?s = "normalize_entry (num_entries br) entry_start"
  let ?e = "normalize_entry (num_entries br) entry_stop"
  have offs: "entry_offsets br = offsets_from 0 (basket_arrays br)"
    and n: "0 \<le> num_entries br"
    using assms by (simp_all add: consistent_branch_def)
  have s: "0 \<le> ?s" using normalize_entry_bounds [OF n] by simp
  have slice: "array br entry_start entry_stop = py_slice (concat (basket_arrays br)) ?s ?e"
    using s by (simp add: array_def offs final_array_slice py_slice_def max_def)
  have empty: "?e \<le> ?s \<longrightarrow> array br entry_start entry_stop = []"
    unfolding slice by (simp add: py_slice_def)
  from slice empty show ?thesis
    unfolding array_def by blast
qed

theorem final_array_stitches_slice_witness:
  "consistent_branch stitching_test_branch
   \<and> array stitching_test_branch 3 (- 4) = [3, 4, 5, 6, 7, 8, 9, 10]
   \<and> py_slice (concat (basket_arrays stitching_test_branch)) 3 11 = [3, 4, 5, 6, 7, 8, 9, 10]
   \<and> normalize_entry (num_entries stitching_test_branch) (- 4) = 11
   \<and> array stitching_test_branch 12 7 = []"
proof -
  have c: "consistent_branch stitching_test_branch"
    by (simp add: consistent_branch_def stitching_test_branch_def)
  have n: "normalize_entry (num_entries stitching_test_branch) 3 = 3"
      "normalize_entry (num_entries stitching_test_branch) (- 4) = 11"
      "normalize_entry (num_entries stitching_test_branch) 12 = 12"
      "normalize_entry (num_entries stitching_test_branch) 7 = 7"
    by (simp_all add: normalize_entry_def stitching_test_branch_def)
  have p: "py_slice (concat (basket_arrays stitching_test_branch)) 3 11 = [3, 4, 5, 6, 7, 8, 9, 10]"
    by (simp add: py_slice_def stitching_test_branch_def)
  note at_3 = final_array_stitches_slice [OF c, of 3 "- 4"]
  note at_12 = final_array_stitches_slice [OF c, of 12 7]
  have a: "array stitching_test_branch 3 (- 4) = [3, 4, 5, 6, 7, 8, 9, 10]"
    using at_3 [THEN conjunct2, THEN conjunct1] n p by simp
  have b: "array stitching_test_branch 12 7 = []"
    using at_12 [THEN conjunct2, THEN conjunct2] n by simp
  show ?thesis
    using a b c n p by simp
qed

text \<open>
  Claim C2, as stated. With the boundaries \<open>0, 7, 14, 21, 28, 29\<close> and the 29 entries
  the example gives, the stop \<open>-5\<close> normalises to 24 and \<open>array(dtype, 3, -5)\<close> has
  the 21 values \<open>-12..8\<close>, not the 22 values \<open>-12..9\<close>.
\<close>

theorem spec_example_range_counterexample:
  "normalize_entry (num_entries spec_example_branch) (- 5) = 24
   \<and> array spec_example_branch 3 (- 5)
       = [- 12, - 11, - 10, - 9, - 8, - 7, - 6, - 5, - 4, - 3, - 2, - 1, 0, 1, 2, 3, 4, 5, 6, 7, 8]
   \<and> array spec_example_branch 3 (- 5)
       \<noteq> [- 12, - 11, - 10, - 9, - 8, - 7, - 6, - 5, - 4, - 3, - 2, - 1, 0, 1, 2, 3, 4, 5, 6, 7, 8, 9]"
  by (simp add: array_def spec_example_branch_def normalize_entry_def clip_fragment_def)

text \<open>
  Claim C2, amended. The branch of the test holds \<open>-15..14\<close> in five baskets with
  boundaries \<open>0, 7, 14, 21, 28, 30\<close>, 30 entries in all; the stop \<open>-5\<close> normalises
  to 25 and \<open>array(dtype, 3, -5)\<close> is the 22 values \<open>-12..9\<close>.
\<close>

theorem sample_i4_array_3_minus5:
  "normalize_entry (num_entries sample_i4_branch) (- 5) = 25
   \<and> array sample_i4_branch 3 (- 5)
       = [- 12, - 11, - 10, - 9, - 8, - 7, - 6, - 5, - 4, - 3, - 2, - 1, 0, 1, 2, 3, 4, 5, 6, 7, 8, 9]
   \<and> length (array sample_i4_branch 3 (- 5)) = 22
   \<and> consistent_branch sample_i4_branch"
  by (simp add: array_def sample_i4_branch_def normalize_entry_def clip_fragment_def consistent_branch_def)


section \<open>Properties of the cache keys\<close>

lemma split_first_append:
  assumes "c \<notin> set front"
  shows "split_first c (front @ c # back) = Some (front, back)"
  using assms by (induction front) auto

lemma split_last_append:
  assumes "c \<notin> set back"
  shows "split_last c (front @ c # back) = Some (front, back)"
proof -
  have "rev (front @ c # back) = rev back @ c # rev front"
    by simp
  moreover have "c \<notin> set (rev back)"
    using assms by simp
  ultimately show ?thesis
    by (simp add: split_last_def split_first_append)
qed

lemma digit_char_digit:
  assumes "d < 10"
  shows "is_digit (digit_char d)" and "digit_value (digit_char d) = d"
proof -
  from assms have "d \<in> {0, 1, 2, 3, 4, 5, 6, 7, 8, 9}"
    by auto
  then show "is_digit (digit_char d)" and "digit_value (digit_char d) = d"
    by (auto simp: digit_char_def is_digit_def digit_value_def)
qed

lemma str_nat_digits: "list_all is_digit (str_nat n) \<and> str_nat n \<noteq> []"
proof (induction n rule: str_nat.induct)
  case (1 n)
  show ?case
  proof (cases "n < 10")
    case True
    then show ?thesis
      by (subst (1 2) str_nat.simps) (simp add: digit_char_digit)
  next
    case False
    then show ?thesis
      using 1 by (subst (1 2) str_nat.simps) (simp add: digit_char_digit)
  qed
qed

lemma read_digits_str_nat:
  "foldl (\<lambda>n c. 10 * n + digit_value c) 0 (str_nat n) = n"
proof (induction n rule: str_nat.induct)
  case (1 n)
  show ?case
  proof (cases "n < 10")
    case True
    then show ?thesis
      by (subst str_nat.simps) (simp add: digit_char_digit)
  next
    case False
    then show ?thesis
      using 1 by (subst str_nat.simps) (simp add: digit_char_digit)
  qed
qed

lemma read_nat_str_nat: "read_nat (str_nat n) = Some n"
  using str_nat_digits [of n] by (simp add: read_nat_def read_digits_str_nat)

lemma read_int_str_int: "read_int (str_int i) = Some i"
proof (cases "i < 0")
  case True
  then show ?thesis
    by (simp add: str_int_def read_int_def read_nat_str_nat)
next
  case False
  obtain c cs where shape: "str_nat (nat i) = c # cs"
    using str_nat_digits [of "nat i"] by (cases "str_nat (nat i)") auto
  then have "is_digit c"
    using str_nat_digits [of "nat i"] by simp
  then have "c \<noteq> CHR ''-''"
    by (auto simp: is_digit_def)
  then have "read_int (str_nat (nat i)) = map_option int (read_nat (str_nat (nat i)))"
    using shape by (simp add: read_int_def)
  then show ?thesis
    using False by (simp add: str_int_def read_nat_str_nat)
qed

lemma str_int_chars:
  assumes "c \<in> set (str_int i)"
  shows "is_digit c \<or> c = CHR ''-''" and "0 \<le> i \<Longrightarrow> is_digit c"
  using assms str_nat_digits [of "nat i"] str_nat_digits [of "nat (- i)"]
  by (auto simp: str_int_def list_all_iff split: if_splits)

lemma str_int_no_delimiter:
  "CHR '':'' \<notin> set (str_int i)" "CHR '')'' \<notin> set (str_int i)"
  "0 \<le> i \<Longrightarrow> CHR ''-'' \<notin> set (str_int i)"
  using str_int_chars [of _ i] by (auto simp: is_digit_def)


lemma parse_range_range:
  assumes "0 \<le> entry_stop"
  shows "parse_range (str_int entry_start @ ''-'' @ str_int entry_stop) = Some (entry_start, entry_stop)"
proof -
  have "split_last CHR ''-'' (str_int entry_start @ CHR ''-'' # str_int entry_stop)
      = Some (str_int entry_start, str_int entry_stop)"
    using assms by (intro split_last_append str_int_no_delimiter)
  then show ?thesis
    by (simp add: parse_range_def read_int_str_int)
qed

lemma parse_request_part_key:
  assumes "CHR '':'' \<notin> set library" and "0 \<le> entry_stop"
  shows "parse_request_part
           (signature @ '':'' @ str_int entry_start @ ''-'' @ str_int entry_stop @ '':'' @ library)
     = Some (signature, entry_start, entry_stop, library)"
proof -
  let ?bounds = "str_int entry_start @ ''-'' @ str_int entry_stop"
  let ?whole = "signature @ '':'' @ ?bounds"
  have whole: "signature @ '':'' @ str_int entry_start @ ''-'' @ str_int entry_stop @ '':'' @ library
      = ?whole @ CHR '':'' # library"
    by simp
  have last: "split_last CHR '':'' (?whole @ CHR '':'' # library) = Some (?whole, library)"
    using assms(1) by (rule split_last_append)
  have "CHR '':'' \<notin> set ?bounds"
    by (simp add: str_int_no_delimiter)
  then have "split_last CHR '':'' (signature @ CHR '':'' # ?bounds) = Some (signature, ?bounds)"
    by (rule split_last_append)
  then have inner: "split_last CHR '':'' ?whole = Some (signature, ?bounds)"
    by simp
  show ?thesis
    unfolding whole parse_request_part_def last
    by (simp only: inner parse_range_range [OF assms(2)] option.case prod.case)
qed

lemma parse_branch_part_key:
  assumes "CHR ''('' \<notin> set branch_name"
  shows "parse_branch_part (branch_name @ ''('' @ str_int type_id @ '')'' @ '':'' @ request_part)
     = Some (branch_name, type_id, request_part)"
proof -
  have "split_first CHR ''('' (branch_name @ CHR ''('' # str_int type_id @ '')'' @ '':'' @ request_part)
      = Some (branch_name, str_int type_id @ '')'' @ '':'' @ request_part)"
    using assms by (rule split_first_append)
  moreover have "split_first CHR '')'' (str_int type_id @ CHR '')'' # '':'' @ request_part)
      = Some (str_int type_id, '':'' @ request_part)"
    by (intro split_first_append str_int_no_delimiter)
  ultimately show ?thesis
    by (simp add: parse_branch_part_def read_int_str_int)
qed

lemma parse_object_part_key:
  assumes "CHR '':'' \<notin> set file_uuid" and "CHR '';'' \<notin> set path"
  shows "parse_object_part (file_uuid @ '':'' @ path @ '';'' @ str_int cycle @ '':'' @ branch_part)
     = Some (file_uuid, path, cycle, branch_part)"
proof -
  have "split_first CHR '':'' (file_uuid @ CHR '':'' # path @ '';'' @ str_int cycle @ '':'' @ branch_part)
      = Some (file_uuid, path @ '';'' @ str_int cycle @ '':'' @ branch_part)"
    using assms(1) by (rule split_first_append)
  moreover have "split_first CHR '';'' (path @ CHR '';'' # str_int cycle @ '':'' @ branch_part)
      = Some (path, str_int cycle @ '':'' @ branch_part)"
    using assms(2) by (rule split_first_append)
  moreover have "split_first CHR '':'' (str_int cycle @ CHR '':'' # branch_part)
      = Some (str_int cycle, branch_part)"
    by (intro split_first_append str_int_no_delimiter)
  ultimately show ?thesis
    by (simp add: parse_object_part_def read_int_str_int)
qed

lemma parse_key_of_request:
  assumes "unambiguous_request r"
  shows "parse_key (key_of_request r) = Some r"
proof -
  let ?request_part = "req_interpretation_id r @ '':'' @ str_int (req_entry_start r) @ ''-''
      @ str_int (req_entry_stop r) @ '':'' @ req_output_library r"
  let ?branch_part = "req_branch_name r @ ''('' @ str_int (req_type_id r) @ '')'' @ '':''
      @ ?request_part"
  have key: "key_of_request r
      = req_file_id r @ '':'' @ req_object_path r @ '';'' @ str_int (req_cycle r) @ '':''
          @ ?branch_part"
    by (simp add: key_of_request_def key_for_def)
  have object_part: "parse_object_part (key_of_request r)
      = Some (req_file_id r, req_object_path r, req_cycle r, ?branch_part)"
    unfolding key using assms by (intro parse_object_part_key) (simp_all add: unambiguous_request_def)
  have branch_part: "parse_branch_part ?branch_part
      = Some (req_branch_name r, req_type_id r, ?request_part)"
    using assms by (intro parse_branch_part_key) (simp add: unambiguous_request_def)
  have request_part: "parse_request_part ?request_part
      = Some (req_interpretation_id r, req_entry_start r, req_entry_stop r, req_output_library r)"
    using assms by (intro parse_request_part_key) (simp_all add: unambiguous_request_def)
  show ?thesis
    unfolding parse_key_def object_part
    by (simp only: branch_part request_part option.case prod.case) simp
qed

lemma key_of_request_inj:
  assumes "unambiguous_request r" and "unambiguous_request r'"
    and "key_of_request r = key_of_request r'"
  shows "r = r'"
proof -
  have "Some r = parse_key (key_of_request r)"
    using assms(1) by (simp add: parse_key_of_request)
  also have "\<dots> = parse_key (key_of_request r')"
    using assms(3) by simp
  also have "\<dots> = Some r'"
    using assms(2) by (simp add: parse_key_of_request)
  finally show ?thesis by simp
qed

text \<open>
  Claim C8. The key of an array request is a function of the request's parameters:
  equal parameters give equal keys. The key is a sentence of the documented grammar
  with exactly the request's fields: the recogniser of the grammar reads every field
  back from the key of an unambiguous request, the four numbers as the decimal
  integers they are, so that two such requests with the same key are the same
  request. The key is the object-level key followed by the branch segment, the
  interpretation's signature, the entry range and the library tag; the branch \<open>i4\<close>
  with type id 16 gives the segment \<open>i4(16)\<close>, and the four keys of \<open>test_cache\<close> come
  out letter for letter. With the grouped interpretation the signature is the one
  \<open>AsGrouped.cache_key\<close> builds.
\<close>

theorem key_for_matches_grammar:
  "(r = r' \<longrightarrow> key_of_request r = key_of_request r')
   \<and> (unambiguous_request r \<longrightarrow> parse_key (key_of_request r) = Some r)
   \<and> (unambiguous_request r \<and> unambiguous_request r' \<and> key_of_request r = key_of_request r'
        \<longrightarrow> r = r')
   \<and> read_int (str_int i) = Some i
   \<and> key_for file_id path cycle branch_name type_id interpretation_id
         entry_start entry_stop output_library
     = object_cache_key file_id path cycle @ '':'' @ branch_segment branch_name type_id
         @ '':'' @ interpretation_id
         @ '':'' @ str_int entry_start @ ''-'' @ str_int entry_stop
         @ '':'' @ output_library
   \<and> file_cache_key ''db4be408-93ad-11ea-9027-d201a8c0beef'' ''/''
     = ''db4be408-93ad-11ea-9027-d201a8c0beef:/''
   \<and> object_cache_key ''db4be408-93ad-11ea-9027-d201a8c0beef'' ''/sample'' 1
     = ''db4be408-93ad-11ea-9027-d201a8c0beef:/sample;1''
   \<and> branch_segment ''i4'' 16 = ''i4(16)''
   \<and> key_of_request test_cache_request
     = ''db4be408-93ad-11ea-9027-d201a8c0beef:/sample;1:i4(16):AsDtype(Bi4(),Li4()):0-30:np''
   \<and> key_for ''db4be408-93ad-11ea-9027-d201a8c0beef'' ''/sample'' 1 ''evt'' 3
         (AsGrouped_cache_key repr grouped_example) 0 30 ''np''
     = ''db4be408-93ad-11ea-9027-d201a8c0beef:/sample;1:evt(3):AsGrouped(evt,[''
         @ repr ''i4'' @ '':AsDtype(Bi4(),Li4()),'' @ repr ''i8'' @ '':AsDtype(Bi8(),Li8())'' @ ''])''
         @ '':0-30:np''"
proof -
  have reads: "unambiguous_request r \<longrightarrow> parse_key (key_of_request r) = Some r"
    by (simp add: parse_key_of_request)
  have one_to_one: "unambiguous_request r \<and> unambiguous_request r' \<and> key_of_request r = key_of_request r'
        \<longrightarrow> r = r'"
    using key_of_request_inj by blast
  have number: "read_int (str_int i) = Some i"
    by (rule read_int_str_int)
  have layout: "key_for file_id path cycle branch_name type_id interpretation_id
         entry_start entry_stop output_library
     = object_cache_key file_id path cycle @ '':'' @ branch_segment branch_name type_id
         @ '':'' @ interpretation_id
         @ '':'' @ str_int entry_start @ ''-'' @ str_int entry_stop
         @ '':'' @ output_library"
    by (simp add: key_for_def object_cache_key_def branch_segment_def)
  have tested: "file_cache_key ''db4be408-93ad-11ea-9027-d201a8c0beef'' ''/''
     = ''db4be408-93ad-11ea-9027-d201a8c0beef:/''"
    "object_cache_key ''db4be408-93ad-11ea-9027-d201a8c0beef'' ''/sample'' 1
     = ''db4be408-93ad-11ea-9027-d201a8c0beef:/sample;1''"
    "branch_segment ''i4'' 16 = ''i4(16)''"
    "key_of_request test_cache_request
     = ''db4be408-93ad-11ea-9027-d201a8c0beef:/sample;1:i4(16):AsDtype(Bi4(),Li4()):0-30:np''"
    by (simp_all add: key_of_request_def test_cache_request_def key_for_def object_cache_key_def
          branch_segment_def file_cache_key_def str_int_def str_nat.simps digit_char_def)
  have grouped: "key_for ''db4be408-93ad-11ea-9027-d201a8c0beef'' ''/sample'' 1 ''evt'' 3
         (AsGrouped_cache_key repr grouped_example) 0 30 ''np''
     = ''db4be408-93ad-11ea-9027-d201a8c0beef:/sample;1:evt(3):AsGrouped(evt,[''
         @ repr ''i4'' @ '':AsDtype(Bi4(),Li4()),'' @ repr ''i8'' @ '':AsDtype(Bi8(),Li8())'' @ ''])''
         @ '':0-30:np''"
    by (simp add: key_for_def AsGrouped_cache_key_def grouped_example_def str_int_def
          str_nat.simps digit_char_def)
  from reads one_to_one number layout tested grouped show ?thesis
    by blast
qed

theorem key_for_matches_grammar_witness:
  "unambiguous_request test_cache_request
   \<and> unambiguous_request (test_cache_request\<lparr>req_entry_start := 3\<rparr>)
   \<and> parse_key ''db4be408-93ad-11ea-9027-d201a8c0beef:/sample;1:i4(16):AsDtype(Bi4(),Li4()):0-30:np''
     = Some test_cache_request
   \<and> key_of_request (test_cache_request\<lparr>req_entry_start := 3\<rparr>)
     = ''db4be408-93ad-11ea-9027-d201a8c0beef:/sample;1:i4(16):AsDtype(Bi4(),Li4()):3-30:np''
   \<and> key_of_request (test_cache_request\<lparr>req_entry_start := 3\<rparr>)
     \<noteq> key_of_request test_cache_request"
proof -
  let ?other = "test_cache_request\<lparr>req_entry_start := 3\<rparr>"
  have clear: "unambiguous_request test_cache_request" "unambiguous_request ?other"
    by (simp_all add: unambiguous_request_def test_cache_request_def)
  have differ: "?other \<noteq> test_cache_request"
    by (simp add: test_cache_request_def)
  note inst = key_for_matches_grammar
    [where r = ?other and r' = test_cache_request]
  note inst' = key_for_matches_grammar
    [where r = test_cache_request and r' = test_cache_request]
  have key: "key_of_request test_cache_request
     = ''db4be408-93ad-11ea-9027-d201a8c0beef:/sample;1:i4(16):AsDtype(Bi4(),Li4()):0-30:np''"
    using inst' by blast
  have "parse_key (key_of_request test_cache_request) = Some test_cache_request"
    using inst' clear(1) by blast
  then have parsed: "parse_key ''db4be408-93ad-11ea-9027-d201a8c0beef:/sample;1:i4(16):AsDtype(Bi4(),Li4()):0-30:np''
     = Some test_cache_request"
    unfolding key .
  have other_key: "key_of_request ?other
     = ''db4be408-93ad-11ea-9027-d201a8c0beef:/sample;1:i4(16):AsDtype(Bi4(),Li4()):3-30:np''"
    by (simp add: key_of_request_def test_cache_request_def key_for_def str_int_def
          str_nat.simps digit_char_def)
  have distinct: "key_of_request ?other \<noteq> key_of_request test_cache_request"
    using inst clear differ by blast
  from clear parsed other_key distinct show ?thesis by blast
qed

section \<open>Properties of the grouped interpretation\<close>

text \<open>
  Claim C9. For every input, \<open>basket_array\<close> and \<open>final_array\<close> of the grouped
  interpretation raise a \<open>ValueError\<close> whose message says that grouping branches
  should not be read directly and names the subbranches to read instead; neither
  returns a value.
\<close>

theorem AsGrouped_refuses_direct_decoding:
  "AsGrouped_basket_array repr self data byte_offsets basket branch' context cursor_offset library
     = Inl (Exn ValueError (read_directly_message repr self) [])
   \<and> AsGrouped_final_array repr self basket_arrays' entry_start entry_stop entry_offsets' library branch'
     = Inl (Exn ValueError (read_directly_message repr self) [])
   \<and> AsGrouped_basket_array repr self data byte_offsets basket branch' context cursor_offset library
     \<noteq> Inr array'
   \<and> AsGrouped_final_array repr self basket_arrays' entry_start entry_stop entry_offsets' library branch'
     \<noteq> Inr array'
   \<and> read_directly_message repr self
     = ''grouping branches like '' @ repr (name (branch self))
         @ '' should not be read directly; instead read the subbranches:'' @ nl @ nl
         @ ''    '' @ join '', '' (map (repr \<circ> fst) (subbranches self)) @ nl @ nl
         @ ''in file '' @ file_path (file' (branch self)) @ nl
         @ ''in object '' @ object_path (branch self)"
  by (simp add: AsGrouped_basket_array_def AsGrouped_final_array_def read_directly_message_def
        comp_def case_prod_unfold)

section \<open>Properties of the futures\<close>

lemma with_traceback_same: "with_traceback e (exn_traceback e) = e"
  by (cases e) (simp add: with_traceback_def)

lemma delayed_raise_exc_info:
  "delayed_raise py_two (exn_class e) e (exn_traceback e) = Inl e"
  by (simp add: delayed_raise_def with_traceback_same)

lemma Future_result_finished:
  assumes "finished self"
  shows "Future_result py_two self timeout =
           Some (case excinfo self of
                   None \<Rightarrow> Inr (result_value self)
                 | Some (c, v, tb) \<Rightarrow> delayed_raise py_two c v tb)"
  using assms by (simp add: Future_result_def Event_wait_def)

lemma Future_result_no_timeout:
  assumes "Future_result py_two self (None :: 't option) = Some r"
  shows "finished self"
  using assms by (simp add: Future_result_def Event_wait_def split: if_splits)

lemma Future_run_settles:
  assumes "Future_run self = (self', None)" and "excinfo self = None"
  shows "finished self'"
    and "Future_result py_two self' timeout =
           Some (case apply_star (task self) (args self) of
                   Inr v \<Rightarrow> Inr (Some v) | Inl e \<Rightarrow> Inl e)"
proof -
  show fin: "finished self'"
    using assms(1) by (auto simp: Future_run_def split: sum.splits if_splits)
  show "Future_result py_two self' timeout =
           Some (case apply_star (task self) (args self) of
                   Inr v \<Rightarrow> Inr (Some v) | Inl e \<Rightarrow> Inl e)"
  proof (cases "apply_star (task self) (args self)")
    case (Inl e)
    then have "self' = self\<lparr>excinfo := Some (sys_exc_info e), finished := True\<rparr>"
      using assms(1) by (auto simp: Future_run_def split: if_splits)
    then show ?thesis
      using Inl by (simp add: Future_result_finished sys_exc_info_def delayed_raise_exc_info)
  next
    case (Inr v)
    then have "self' = self\<lparr>result_value := Some v, finished := True\<rparr>"
      using assms(1) by (simp add: Future_run_def)
    then show ?thesis
      using Inr assms(2) by (simp add: Future_result_finished)
  qed
qed

lemma ResourceFuture_run_settles:
  assumes "ResourceFuture_run resource (self, w) = ((self', w'), None)" and "excinfo self = None"
  shows "finished self'"
    and "w' = call_notify self w"
    and "Future_result py_two self' timeout =
           Some (case task self resource of Inr v \<Rightarrow> Inr (Some v) | Inl e \<Rightarrow> Inl e)"
proof -
  show "finished self'"
    using assms(1) by (auto simp: ResourceFuture_run_def Let_def split: sum.splits if_splits)
  show "w' = call_notify self w"
    using assms(1)
    by (auto simp: ResourceFuture_run_def Let_def call_notify_def split: sum.splits if_splits)
  show "Future_result py_two self' timeout =
           Some (case task self resource of Inr v \<Rightarrow> Inr (Some v) | Inl e \<Rightarrow> Inl e)"
  proof (cases "task self resource")
    case (Inl e)
    then have "self' = self\<lparr>excinfo := Some (sys_exc_info e), finished := True\<rparr>"
      using assms(1) by (auto simp: ResourceFuture_run_def Let_def split: if_splits)
    then show ?thesis
      using Inl by (simp add: Future_result_finished sys_exc_info_def delayed_raise_exc_info)
  next
    case (Inr v)
    then have "self' = self\<lparr>result_value := Some v, finished := True\<rparr>"
      using assms(1) by (simp add: ResourceFuture_run_def Let_def)
    then show ?thesis
      using Inr assms(2) by (simp add: Future_result_finished)
  qed
qed

text \<open>
  Claim C3, on the code. \<open>TrivialExecutor.submit\<close> returns what the task returns, and
  raises what it raises: for the task \<open>lambda x: x + 1\<close> and the argument 41 it returns
  the integer 42, on which \<open>result()\<close> is an \<open>AttributeError\<close>, where \<open>NoFuture(42)\<close>
  would have answered 42.
\<close>

theorem TrivialExecutor_submit_returns_task_value:
  "TrivialExecutor_submit t a = t a
   \<and> TrivialExecutor_submit boxed_increment_task 41 = Inr (PyInt 42)
   \<and> call_result (PyInt 42) timeout
       = Inl (Exn AttributeError ''int object has no attribute result'' [])
   \<and> call_result (NoFuture (PyInt 42)) timeout = Inr (PyInt 42)"
  by (simp add: TrivialExecutor_submit_def boxed_increment_task_def)

text \<open>
  Claim C4, as stated. A pending future asked for its result with a timeout answers
  when the timeout has run out: \<open>result(timeout=1)\<close> returns None, neither the value
  42 of the task nor an error, and the future is still not resolved.
\<close>

theorem Future_result_timeout_counterexample:
  "Future_result False (Future_init increment_task (Some 41)) (Some (1 :: nat)) = Some (Inr None)
   \<and> \<not> finished (Future_init increment_task (Some 41))
   \<and> Future_result False (fst (Future_run (Future_init increment_task (Some 41)))) (Some (1 :: nat))
     = Some (Inr (Some 42))"
  by (simp add: Future_result_def Future_init_def Event_wait_def Future_run_def apply_star_def
        increment_task_def)

text \<open>
  Claim C4, amended. Without a timeout \<open>result()\<close> returns only when the future is
  resolved. On a resolved future \<open>result()\<close> returns, whatever the timeout, and its
  outcome does not depend on the timeout; it reads the future and leaves it as it is,
  so every call gives the same outcome. After \<open>_run\<close> has settled a new future the
  outcome is the value the task returned, or the exception it raised, raised again.
\<close>

theorem Future_result_reads_final_state:
  "(Future_result py_two self (None :: 't option) = Some r \<longrightarrow> finished self)
   \<and> (finished self \<longrightarrow>
        Future_result py_two self (timeout :: 't option) \<noteq> None
        \<and> Future_result py_two self timeout = Future_result py_two self (timeout' :: 't option))
   \<and> (Future_run (Future_init t a) = (settled, None) \<longrightarrow>
        finished settled
        \<and> Future_result py_two settled timeout
            = Some (case apply_star t a of Inr v \<Rightarrow> Inr (Some v) | Inl e \<Rightarrow> Inl e))
   \<and> (ResourceFuture_run resource (ResourceFuture_init t', w) = ((settled', w'), None) \<longrightarrow>
        finished settled'
        \<and> Future_result py_two settled' timeout
            = Some (case t' resource of Inr v \<Rightarrow> Inr (Some v) | Inl e \<Rightarrow> Inl e))"
proof -
  have a: "Future_result py_two self (None :: 't option) = Some r \<longrightarrow> finished self"
    using Future_result_no_timeout by blast
  have b: "finished self \<longrightarrow>
        Future_result py_two self timeout \<noteq> None
        \<and> Future_result py_two self timeout = Future_result py_two self timeout'"
    by (simp add: Future_result_finished)
  have c: "Future_run (Future_init t a) = (settled, None) \<longrightarrow>
        finished settled
        \<and> Future_result py_two settled timeout
            = Some (case apply_star t a of Inr v \<Rightarrow> Inr (Some v) | Inl e \<Rightarrow> Inl e)"
  proof
    assume run: "Future_run (Future_init t a) = (settled, None)"
    have new: "excinfo (Future_init t a) = None"
      by (simp add: Future_init_def)
    show "finished settled
        \<and> Future_result py_two settled timeout
            = Some (case apply_star t a of Inr v \<Rightarrow> Inr (Some v) | Inl e \<Rightarrow> Inl e)"
      using Future_run_settles [OF run new] by (simp add: Future_init_def)
  qed
  have d: "ResourceFuture_run resource (ResourceFuture_init t', w) = ((settled', w'), None) \<longrightarrow>
        finished settled'
        \<and> Future_result py_two settled' timeout
            = Some (case t' resource of Inr v \<Rightarrow> Inr (Some v) | Inl e \<Rightarrow> Inl e)"
  proof
    assume run: "ResourceFuture_run resource (ResourceFuture_init t', w) = ((settled', w'), None)"
    have new: "excinfo (ResourceFuture_init t') = None"
      by (simp add: ResourceFuture_init_def)
    show "finished settled'
        \<and> Future_result py_two settled' timeout
            = Some (case t' resource of Inr v \<Rightarrow> Inr (Some v) | Inl e \<Rightarrow> Inl e)"
      using ResourceFuture_run_settles [OF run new] by (simp add: ResourceFuture_init_def)
  qed
  from a b c d show ?thesis by blast
qed

theorem Future_result_reads_final_state_witness:
  "Future_run (Future_init failing_task (Some 41))
     = (\<lparr> task = failing_task, args = Some 41, finished = True, result_value = None,
          excinfo = Some (ValueError, Exn ValueError ''bad value'' [7], [7]) \<rparr>, None)
   \<and> Future_result False (fst (Future_run (Future_init failing_task (Some 41)))) (None :: nat option)
     = Some (Inl (Exn ValueError ''bad value'' [7]))
   \<and> Future_result False (fst (Future_run (Future_init failing_task (Some 41)))) (Some (3 :: nat))
     = Some (Inl (Exn ValueError ''bad value'' [7]))
   \<and> ResourceFuture_run (3 :: int) (ResourceFuture_init increment_task, 0 :: nat)
     = ((\<lparr> task = increment_task, args = None, finished = True, result_value = Some 4,
            excinfo = None, notify = None \<rparr>, 0), None)
   \<and> Future_result False
         (fst (fst (ResourceFuture_run (3 :: int) (ResourceFuture_init increment_task, 0 :: nat))))
         (Some (3 :: nat))
     = Some (Inr (Some 4))"
proof -
  define failed where "failed = fst (Future_run (Future_init failing_task (Some 41)))"
  define done' where
    "done' = fst (fst (ResourceFuture_run (3 :: int) (ResourceFuture_init increment_task, 0 :: nat)))"
  have run: "Future_run (Future_init failing_task (Some 41)) = (failed, None)"
    by (simp add: failed_def Future_run_def Future_init_def apply_star_def failing_task_def)
  have run': "ResourceFuture_run (3 :: int) (ResourceFuture_init increment_task, 0 :: nat)
      = ((done', 0), None)"
    by (simp add: done'_def ResourceFuture_run_def ResourceFuture_init_def increment_task_def
          call_notify_def)
  have raised: "Future_result False failed (None :: nat option) = Some (Inl (Exn ValueError ''bad value'' [7]))"
    by (simp add: failed_def Future_run_def Future_init_def apply_star_def failing_task_def
          Future_result_def Event_wait_def sys_exc_info_def delayed_raise_def with_traceback_def)
  note inst = Future_result_reads_final_state
    [where py_two = False and self = failed and r = "Inl (Exn ValueError ''bad value'' [7])"
       and timeout = "Some (3 :: nat)" and timeout' = "None :: nat option"
       and t = failing_task and a = "Some 41" and settled = failed
       and resource = "3 :: int" and t' = increment_task and w = "0 :: nat"
       and settled' = done' and w' = "0 :: nat"]
  have fin: "finished failed"
    using inst raised by blast
  have same: "Future_result False failed (Some (3 :: nat)) = Future_result False failed (None :: nat option)"
    using inst fin by blast
  have res: "Future_result False done' (Some (3 :: nat)) = Some (Inr (Some 4))"
    using inst run' by (simp add: increment_task_def)
  have shape: "failed = \<lparr> task = failing_task, args = Some 41, finished = True, result_value = None,
          excinfo = Some (ValueError, Exn ValueError ''bad value'' [7], [7]) \<rparr>"
    by (simp add: failed_def Future_run_def Future_init_def apply_star_def failing_task_def
          sys_exc_info_def)
  have shape': "done' = \<lparr> task = increment_task, args = None, finished = True, result_value = Some 4,
            excinfo = None, notify = None \<rparr>"
    by (simp add: done'_def ResourceFuture_run_def ResourceFuture_init_def increment_task_def
          call_notify_def)
  show ?thesis
    using run run' raised same res shape shape'
    unfolding failed_def [symmetric] done'_def [symmetric] by simp
qed



section \<open>Properties of the executors\<close>

lemma closed_error_first_worker:
  assumes "workers self = worker # others" and "bound_resource worker = Some resource"
  shows "closed_error self = Exn OSError (''resource is closed for file '' @ file_path resource) []"
  using assms by (simp add: closed_error_def)

text \<open>
  Claim C6. Constructing the pool with no resource raises the \<open>ValueError\<close> of
  construction. Constructing it with at least one gives a pool that is not closed,
  whose queue is empty and which has one started worker per resource, in order, each
  bound to its resource. \<open>submit\<close> of a \<open>ResourceFuture\<close> raises the \<open>OSError\<close> that
  says the resource is closed when the pool is closed; otherwise it puts the future
  at the end of the queue, changes nothing else and returns the same future.
\<close>

theorem ResourceThreadPoolExecutor_init_submit:
  "ResourceThreadPoolExecutor_init [] memory outside
     = (Inl (Exn ValueError ''at least one worker is required'' [])
          :: py_exception + ('a, 'v, 'w) ResourceThreadPoolExecutor)
   \<and> (resources \<noteq> [] \<longrightarrow>
        (\<exists>pool :: ('a, 'v, 'w) ResourceThreadPoolExecutor.
           ResourceThreadPoolExecutor_init resources memory outside = Inr pool
           \<and> length (workers pool) = length resources
           \<and> map bound_resource (workers pool) = map Some resources
           \<and> list_all alive (workers pool)
           \<and> \<not> closed pool \<and> work_queue pool = []))
   \<and> (lookup self future = Some (A_ResourceFuture f) \<and> closed self \<longrightarrow>
        ResourceThreadPoolExecutor_submit future self = Inl (closed_error self)
        \<and> (\<forall>worker others resource.
              workers self = worker # others \<and> bound_resource worker = Some resource \<longrightarrow>
              closed_error self
                = Exn OSError (''resource is closed for file '' @ file_path resource) []))
   \<and> (lookup self future = Some (A_ResourceFuture f) \<and> \<not> closed self \<longrightarrow>
        ResourceThreadPoolExecutor_submit future self
          = Inr (future, self\<lparr>work_queue := work_queue self @ [Some future]\<rparr>))"
proof -
  have none: "ResourceThreadPoolExecutor_init [] memory outside
      = (Inl (Exn ValueError ''at least one worker is required'' [])
          :: py_exception + ('a, 'v, 'w) ResourceThreadPoolExecutor)"
    by (simp add: ResourceThreadPoolExecutor_init_def)
  have some: "resources \<noteq> [] \<longrightarrow>
        (\<exists>pool :: ('a, 'v, 'w) ResourceThreadPoolExecutor.
           ResourceThreadPoolExecutor_init resources memory outside = Inr pool
           \<and> length (workers pool) = length resources
           \<and> map bound_resource (workers pool) = map Some resources
           \<and> list_all alive (workers pool)
           \<and> \<not> closed pool \<and> work_queue pool = [])"
    by (cases resources)
       (simp_all add: ResourceThreadPoolExecutor_init_def list_all_iff comp_def)
  have shut: "lookup self future = Some (A_ResourceFuture f) \<and> closed self \<longrightarrow>
        ResourceThreadPoolExecutor_submit future self = Inl (closed_error self)
        \<and> (\<forall>worker others resource.
              workers self = worker # others \<and> bound_resource worker = Some resource \<longrightarrow>
              closed_error self
                = Exn OSError (''resource is closed for file '' @ file_path resource) [])"
    by (simp add: ResourceThreadPoolExecutor_submit_def closed_error_first_worker)
  have put: "lookup self future = Some (A_ResourceFuture f) \<and> \<not> closed self \<longrightarrow>
        ResourceThreadPoolExecutor_submit future self
          = Inr (future, self\<lparr>work_queue := work_queue self @ [Some future]\<rparr>)"
    by (simp add: ResourceThreadPoolExecutor_submit_def)
  from none some shut put show ?thesis by blast
qed

theorem ResourceThreadPoolExecutor_init_submit_witness:
  "ResourceThreadPoolExecutor_init example_resources example_heap 0 = Inr example_resource_pool
   \<and> length (workers example_resource_pool) = 2
   \<and> lookup example_resource_pool 0 = Some (A_ResourceFuture (ResourceFuture_init resource_task))
   \<and> ResourceThreadPoolExecutor_submit 0 example_resource_pool
     = Inr (0, example_resource_pool\<lparr>work_queue := [Some 0]\<rparr>)
   \<and> ResourceThreadPoolExecutor_submit 0 (example_resource_pool\<lparr>closed := True\<rparr>)
     = Inl (Exn OSError ''resource is closed for file sample.root'' [])"
proof -
  let ?shut = "example_resource_pool\<lparr>closed := True\<rparr>"
  let ?f = "ResourceFuture_init resource_task :: (Resource, int, nat) ResourceFuture"
  have built: "ResourceThreadPoolExecutor_init example_resources example_heap 0
      = Inr example_resource_pool"
    by (simp add: ResourceThreadPoolExecutor_init_def example_resources_def
          example_resource_pool_def)
  have nonempty: "example_resources \<noteq> []"
    by (simp add: example_resources_def)
  have found: "lookup example_resource_pool 0 = Some (A_ResourceFuture ?f)"
      "lookup ?shut 0 = Some (A_ResourceFuture ?f)"
    by (simp_all add: lookup_def example_resource_pool_def example_heap_def)
  have flags: "\<not> closed example_resource_pool" "closed ?shut"
    by (simp_all add: example_resource_pool_def)
  note open_pool = ResourceThreadPoolExecutor_init_submit
    [where resources = example_resources and memory = example_heap and outside = "0 :: nat"
       and self = example_resource_pool and future = 0 and f = ?f]
  note shut_pool = ResourceThreadPoolExecutor_init_submit
    [where resources = example_resources and memory = example_heap and outside = "0 :: nat"
       and self = ?shut and future = 0 and f = ?f]
  have count: "length (workers example_resource_pool) = 2"
    using open_pool nonempty built by (auto simp: example_resources_def)
  have put: "ResourceThreadPoolExecutor_submit 0 example_resource_pool
      = Inr (0, example_resource_pool\<lparr>work_queue := [Some 0]\<rparr>)"
    using open_pool found(1) flags(1) by (simp add: example_resource_pool_def)
  have first: "workers ?shut
      = \<lparr> alive = True, bound_resource = Some \<lparr> file_path = ''sample.root'', is_open = True \<rparr> \<rparr>
        # [\<lparr> alive = True, bound_resource = Some \<lparr> file_path = ''sample.root'', is_open = True \<rparr> \<rparr>]"
    by (simp add: example_resource_pool_def)
  have refused: "ResourceThreadPoolExecutor_submit 0 ?shut
      = Inl (Exn OSError ''resource is closed for file sample.root'' [])"
  proof -
    from shut_pool found(2) flags(2)
    have "ResourceThreadPoolExecutor_submit 0 ?shut = Inl (closed_error ?shut)"
      and "\<forall>worker others resource.
              workers ?shut = worker # others \<and> bound_resource worker = Some resource \<longrightarrow>
              closed_error ?shut
                = Exn OSError (''resource is closed for file '' @ file_path resource) []"
      by blast+
    with first show ?thesis by simp
  qed
  from built count found(1) put refused show ?thesis by simp
qed

subsection \<open>What a turn of a worker changes\<close>

lemma length_stop_worker: "length (stop_worker i ws) = length ws"
  by (simp add: stop_worker_def)

lemma stop_worker_nth:
  "k < length ws \<Longrightarrow>
   stop_worker i ws ! k = (if k = i then (ws ! k)\<lparr>alive := False\<rparr> else ws ! k)"
  by (simp add: stop_worker_def nth_list_update)

lemma stop_worker_resources: "map bound_resource (stop_worker i ws) = map bound_resource ws"
  by (rule nth_equalityI) (simp_all add: length_stop_worker stop_worker_nth)

lemma Worker_step_workers:
  "workers (Worker_step i s) = workers s \<or> workers (Worker_step i s) = stop_worker i (workers s)"
  by (simp add: Worker_step_def split: list.splits option.splits py_object.splits prod.splits)

lemma Worker_step_queue:
  "work_queue (Worker_step i s) = work_queue s \<or> work_queue (Worker_step i s) = tl (work_queue s)"
  by (simp add: Worker_step_def split: list.splits option.splits py_object.splits prod.splits)

lemma Worker_step_more: "ThreadPoolExecutor.more (Worker_step i s) = ThreadPoolExecutor.more s"
  by (simp add: Worker_step_def split: list.splits option.splits py_object.splits prod.splits)

lemma Worker_step_length: "length (workers (Worker_step i s)) = length (workers s)"
  using Worker_step_workers [of i s] by (auto simp: length_stop_worker)

lemma Worker_step_resources:
  "map bound_resource (workers (Worker_step i s)) = map bound_resource (workers s)"
  using Worker_step_workers [of i s] by (auto simp: stop_worker_resources)

lemma Worker_step_stays_stopped:
  assumes "k < length (workers s)" and "\<not> alive (workers s ! k)"
  shows "\<not> alive (workers (Worker_step i s) ! k)"
  using Worker_step_workers [of i s] assms by (auto simp: stop_worker_nth split: if_splits)

lemma Worker_steps_length: "length (workers (Worker_steps turns s)) = length (workers s)"
  unfolding Worker_steps_def
  by (induction turns arbitrary: s) (simp_all add: Worker_step_length)

lemma Worker_steps_resources:
  "map bound_resource (workers (Worker_steps turns s)) = map bound_resource (workers s)"
  unfolding Worker_steps_def
  by (induction turns arbitrary: s) (simp_all add: Worker_step_resources)

lemma Worker_steps_more: "ThreadPoolExecutor.more (Worker_steps turns s) = ThreadPoolExecutor.more s"
  unfolding Worker_steps_def
  by (induction turns arbitrary: s) (simp_all add: Worker_step_more)

lemma Worker_steps_stays_stopped:
  assumes "k < length (workers s)" and "\<not> alive (workers s ! k)"
  shows "\<not> alive (workers (Worker_steps turns s) ! k)"
  using assms unfolding Worker_steps_def
proof (induction turns arbitrary: s)
  case Nil
  then show ?case by simp
next
  case (Cons i turns)
  have "k < length (workers (Worker_step i s))"
    using Cons.prems(1) by (simp add: Worker_step_length)
  moreover have "\<not> alive (workers (Worker_step i s) ! k)"
    using Cons.prems by (rule Worker_step_stays_stopped)
  ultimately show ?case
    using Cons.IH by simp
qed

lemma Worker_steps_stopped_prefix:
  assumes "list_all (\<lambda>w. \<not> alive w) (take k (workers s))"
  shows "list_all (\<lambda>w. \<not> alive w) (take k (workers (Worker_steps turns s)))"
  unfolding list_all_length
proof (intro allI impI)
  fix n
  assume n: "n < length (take k (workers (Worker_steps turns s)))"
  then have bounds: "n < k" "n < length (workers s)"
    by (simp_all add: Worker_steps_length)
  then have "\<not> alive (workers s ! n)"
    using assms by (simp add: list_all_length)
  then have "\<not> alive (workers (Worker_steps turns s) ! n)"
    using bounds(2) by (simp add: Worker_steps_stays_stopped)
  then show "\<not> alive (take k (workers (Worker_steps turns s)) ! n)"
    using bounds(1) by simp
qed

lemma stopped_prefix_Suc:
  assumes "list_all (\<lambda>w. \<not> alive w) (take k ws)" and "k < length ws" and "\<not> alive (ws ! k)"
  shows "list_all (\<lambda>w. \<not> alive w) (take (Suc k) ws)"
  using assms by (simp add: take_Suc_conv_app_nth)

subsection \<open>The queue under the workers' turns and the sentinels\<close>

lemma Worker_steps_queue: "\<exists>k. work_queue (Worker_steps turns s) = drop k (work_queue s)"
  unfolding Worker_steps_def
proof (induction turns arbitrary: s)
  case Nil
  have "work_queue s = drop 0 (work_queue s)" by simp
  then show ?case by (metis fold_simps(1))
next
  case (Cons i turns)
  obtain k where k: "work_queue (fold Worker_step turns (Worker_step i s)) = drop k (work_queue (Worker_step i s))"
    using Cons.IH by blast
  from Worker_step_queue [of i s]
  have "\<exists>j. work_queue (Worker_step i s) = drop j (work_queue s)"
  proof
    assume "work_queue (Worker_step i s) = work_queue s"
    then have "work_queue (Worker_step i s) = drop 0 (work_queue s)" by simp
    then show ?thesis by blast
  next
    assume "work_queue (Worker_step i s) = tl (work_queue s)"
    then have "work_queue (Worker_step i s) = drop 1 (work_queue s)" by (simp add: drop_Suc)
    then show ?thesis by blast
  qed
  then obtain j where "work_queue (Worker_step i s) = drop j (work_queue s)" ..
  with k have "work_queue (fold Worker_step (i # turns) s) = drop (k + j) (work_queue s)"
    by simp
  then show ?case by blast
qed

subsection \<open>What holds when shutdown returns\<close>

lemma shutdown_from_all_stopped:
  assumes "shutdown_from schedule pc s = Some s'" and "stopped_so_far pc s"
  shows "list_all (\<lambda>w. \<not> alive w) (workers s')"
  using assms
proof (induction schedule arbitrary: pc s)
  case Nil
  then show ?case by simp
next
  case (Cons turns schedule)
  let ?s = "Worker_steps turns s"
  show ?case
  proof (cases pc)
    case (For_worker k)
    have start: "stopped_so_far (Any_alive 0) ?s" by simp
    from Cons.prems(1) For_worker
    consider "shutdown_from schedule (Put_sentinel k) ?s = Some s'"
      | "shutdown_from schedule (For_worker (Suc k)) ?s = Some s'"
      | "shutdown_from schedule (Any_alive 0) ?s = Some s'"
      by (simp add: Let_def split: if_splits)
    then show ?thesis
    proof cases
      case 1 then show ?thesis using Cons.IH by simp
    next
      case 2 then show ?thesis using Cons.IH by simp
    next
      case 3 then show ?thesis using Cons.IH start by blast
    qed
  next
    case (Put_sentinel k)
    with Cons.prems(1)
    have "shutdown_from schedule (For_worker (Suc k)) (?s\<lparr>work_queue := work_queue ?s @ [None]\<rparr>) = Some s'"
      by (simp add: Let_def)
    then show ?thesis using Cons.IH by simp
  next
    case (Any_alive k)
    then have seen: "list_all (\<lambda>w. \<not> alive w) (take k (workers ?s))"
      using Cons.prems(2) by (simp add: Worker_steps_stopped_prefix)
    show ?thesis
    proof (cases "k < length (workers ?s)")
      case True
      note inside = this
      show ?thesis
      proof (cases "alive (workers ?s ! k)")
        case True
        then have "shutdown_from schedule Sleep ?s = Some s'"
          using Cons.prems(1) Any_alive inside by (simp add: Let_def)
        then show ?thesis using Cons.IH by simp
      next
        case False
        then have "shutdown_from schedule (Any_alive (Suc k)) ?s = Some s'"
          using Cons.prems(1) Any_alive inside by (simp add: Let_def)
        moreover have "stopped_so_far (Any_alive (Suc k)) ?s"
          using stopped_prefix_Suc [OF seen inside False] by simp
        ultimately show ?thesis using Cons.IH by blast
      qed
    next
      case False
      then have "s' = ?s"
        using Cons.prems(1) Any_alive by (simp add: Let_def)
      then show ?thesis using seen False by simp
    qed
  next
    case Sleep
    with Cons.prems(1) have "shutdown_from schedule (For_worker 0) ?s = Some s'"
      by (simp add: Let_def)
    then show ?thesis using Cons.IH by simp
  qed
qed

lemma shutdown_from_step:
  assumes "shutdown_from (turns # schedule) pc s = Some s'"
  shows "s' = Worker_steps turns s
     \<or> (\<exists>pc'. shutdown_from schedule pc' (Worker_steps turns s) = Some s')
     \<or> (\<exists>pc'. shutdown_from schedule pc'
            ((Worker_steps turns s)\<lparr>work_queue := work_queue (Worker_steps turns s) @ [None]\<rparr>)
          = Some s')"
  using assms by (cases pc) (auto simp: Let_def split: if_splits)

lemma drop_drop_sentinels:
  assumes "q = drop j q0"
  shows "\<exists>k'. drop k (q @ sentinels) = drop k' (q0 @ sentinels)"
proof -
  let ?j = "min j (length q0)"
  have "q = drop ?j q0"
    using assms by (simp add: min_def)
  then have "q @ sentinels = drop ?j (q0 @ sentinels)"
    by simp
  then have "drop k (q @ sentinels) = drop (k + ?j) (q0 @ sentinels)"
    by (simp add: add.commute)
  then show ?thesis by blast
qed

lemma shutdown_from_frame:
  assumes "shutdown_from schedule pc s = Some s'"
  shows "map bound_resource (workers s') = map bound_resource (workers s)
     \<and> ThreadPoolExecutor.more s' = ThreadPoolExecutor.more s
     \<and> (\<exists>k n. work_queue s' = drop k (work_queue s @ replicate n None))"
  using assms
proof (induction schedule arbitrary: pc s)
  case Nil
  then show ?case by simp
next
  case (Cons turns schedule)
  let ?s = "Worker_steps turns s"
  let ?put = "?s\<lparr>work_queue := work_queue ?s @ [None]\<rparr>"
  obtain j where j: "work_queue ?s = drop j (work_queue s)"
    using Worker_steps_queue by blast
  have same: "map bound_resource (workers ?s) = map bound_resource (workers s)"
      "ThreadPoolExecutor.more ?s = ThreadPoolExecutor.more s"
    by (simp_all add: Worker_steps_resources Worker_steps_more)
  from shutdown_from_step [OF Cons.prems]
  consider "s' = ?s"
    | pc' where "shutdown_from schedule pc' ?s = Some s'"
    | pc' where "shutdown_from schedule pc' ?put = Some s'"
    by blast
  then show ?case
  proof cases
    case 1
    have "work_queue ?s = drop j (work_queue s @ replicate 0 None)"
      using j by simp
    then have "\<exists>k n. work_queue s' = drop k (work_queue s @ replicate n None)"
      using 1 by blast
    then show ?thesis
      using 1 same by blast
  next
    case 2
    from Cons.IH [OF 2] obtain k n where
      res: "map bound_resource (workers s') = map bound_resource (workers ?s)"
      and more: "ThreadPoolExecutor.more s' = ThreadPoolExecutor.more ?s"
      and q: "work_queue s' = drop k (work_queue ?s @ replicate n None)"
      by blast
    obtain k' where "drop k (work_queue ?s @ replicate n None)
        = drop k' (work_queue s @ replicate n None)"
      using drop_drop_sentinels [OF j] by blast
    then have "\<exists>k n. work_queue s' = drop k (work_queue s @ replicate n None)"
      using q by auto
    then show ?thesis
      using res more same by simp
  next
    case 3
    from Cons.IH [OF 3] obtain k n where
      res: "map bound_resource (workers s') = map bound_resource (workers ?put)"
      and more: "ThreadPoolExecutor.more s' = ThreadPoolExecutor.more ?put"
      and q: "work_queue s' = drop k (work_queue ?put @ replicate n None)"
      by blast
    have "work_queue ?put @ replicate n None = work_queue ?s @ replicate (Suc n) None"
      by simp
    moreover obtain k' where "drop k (work_queue ?s @ replicate (Suc n) None)
        = drop k' (work_queue s @ replicate (Suc n) None)"
      using drop_drop_sentinels [OF j] by blast
    ultimately have "work_queue s' = drop k' (work_queue s @ replicate (Suc n) None)"
      using q by simp
    then have "\<exists>k n. work_queue s' = drop k (work_queue s @ replicate n None)"
      by blast
    then show ?thesis
      using res more same by simp
  qed
qed

subsection \<open>Shutdown returns when the workers get their turns\<close>

lemma Worker_steps_append: "Worker_steps (xs @ ys) s = Worker_steps ys (Worker_steps xs s)"
  by (simp add: Worker_steps_def)

lemma Worker_step_not_alive:
  assumes "i < length (workers s) \<longrightarrow> \<not> alive (workers s ! i)"
  shows "Worker_step i s = s"
  using assms by (auto simp: Worker_step_def)

lemma Worker_steps_not_alive:
  assumes "\<forall>i \<in> set turns. i < length (workers s) \<longrightarrow> \<not> alive (workers s ! i)"
  shows "Worker_steps turns s = s"
  using assms unfolding Worker_steps_def
  by (induction turns) (simp_all add: Worker_step_not_alive)

lemma Worker_step_pops:
  assumes "i < length (workers s)" and "alive (workers s ! i)" and "work_queue s = x # queue"
  shows "work_queue (Worker_step i s) = queue"
    and "x = None \<Longrightarrow> \<not> alive (workers (Worker_step i s) ! i)"
  using assms
  by (auto simp: Worker_step_def stop_worker_def
           split: option.splits py_object.splits prod.splits)

lemma Worker_steps_length_queue:
  "length (work_queue (Worker_steps turns s)) \<le> length (work_queue s)"
proof -
  obtain k where "work_queue (Worker_steps turns s) = drop k (work_queue s)"
    using Worker_steps_queue by blast
  then show ?thesis by simp
qed

lemma sentinel_stops_worker:
  assumes "None \<in> set (work_queue s)" and "length (work_queue s) \<le> n_turns"
    and "i < length (workers s)"
  shows "\<not> alive (workers (Worker_steps (replicate n_turns i) s) ! i)"
  using assms
proof (induction n_turns arbitrary: s)
  case 0
  then show ?case by simp
next
  case (Suc n_turns)
  have steps: "Worker_steps (replicate (Suc n_turns) i) s
      = Worker_steps (replicate n_turns i) (Worker_step i s)"
    by (simp add: Worker_steps_def)
  have len: "i < length (workers (Worker_step i s))"
    using Suc.prems(3) by (simp add: Worker_step_length)
  show ?case
  proof (cases "alive (workers s ! i)")
    case False
    then have "\<not> alive (workers (Worker_step i s) ! i)"
      using Suc.prems(3) by (simp add: Worker_step_stays_stopped)
    then show ?thesis
      unfolding steps using len by (simp add: Worker_steps_stays_stopped)
  next
    case True
    obtain x queue where queue: "work_queue s = x # queue"
      using Suc.prems(1) by (cases "work_queue s") auto
    note pops = Worker_step_pops [OF Suc.prems(3) True queue]
    show ?thesis
    proof (cases x)
      case None
      then have "\<not> alive (workers (Worker_step i s) ! i)"
        using pops(2) by simp
      then show ?thesis
        unfolding steps using len by (simp add: Worker_steps_stays_stopped)
    next
      case (Some ref)
      then have "None \<in> set (work_queue (Worker_step i s))"
        using Suc.prems(1) queue pops(1) by auto
      moreover have "length (work_queue (Worker_step i s)) \<le> n_turns"
        using Suc.prems(2) queue pops(1) by simp
      ultimately show ?thesis
        unfolding steps using Suc.IH len by blast
    qed
  qed
qed


lemma worker_turns_split:
  assumes "m < n"
  shows "worker_turns n n_turns
     = worker_turns m n_turns @ replicate n_turns m @ concat (map (replicate n_turns) [Suc m..<n])"
proof -
  have "[0..<n] = [0..<m] @ m # [Suc m..<n]"
    using assms by (metis le_add1 le_add_same_cancel1 less_imp_add_positive upt_add_eq_append upt_conv_Cons)
  then show ?thesis
    by (simp add: worker_turns_def)
qed

lemma worker_turns_stop:
  assumes len: "length (workers s) = n" and k: "k \<le> n"
    and before: "\<forall>j. Suc j < k \<longrightarrow> \<not> alive (workers s ! j)"
    and pending: "0 < k \<longrightarrow> \<not> alive (workers s ! (k - 1)) \<or> None \<in> set (work_queue s)"
    and bound: "length (work_queue s) \<le> n_turns"
  shows "\<forall>j<k. \<not> alive (workers (Worker_steps (worker_turns n n_turns) s) ! j)"
proof (cases k)
  case 0
  then show ?thesis by simp
next
  case (Suc m)
  then have m: "m < n" using k by simp
  let ?rest = "concat (map (replicate n_turns) [Suc m..<n])"
  have "\<forall>i \<in> set (worker_turns m n_turns). i < length (workers s) \<longrightarrow> \<not> alive (workers s ! i)"
    using before Suc by (auto simp: worker_turns_def)
  then have idle: "Worker_steps (worker_turns m n_turns) s = s"
    by (rule Worker_steps_not_alive)
  let ?s1 = "Worker_steps (replicate n_turns m) s"
  have steps: "Worker_steps (worker_turns n n_turns) s = Worker_steps ?rest ?s1"
    unfolding worker_turns_split [OF m] by (simp add: Worker_steps_append idle)
  have m_len: "m < length (workers s)" using m len by simp
  have stopped_m: "\<not> alive (workers ?s1 ! m)"
  proof (cases "alive (workers s ! m)")
    case True
    then have "None \<in> set (work_queue s)" using pending Suc by simp
    then show ?thesis using bound m_len by (rule sentinel_stops_worker)
  next
    case False
    then show ?thesis using m_len by (simp add: Worker_steps_stays_stopped)
  qed
  have "\<not> alive (workers ?s1 ! j)" if "j < k" for j
  proof (cases "j = m")
    case True
    then show ?thesis using stopped_m by simp
  next
    case False
    then have "Suc j < k" using that Suc by simp
    then have "\<not> alive (workers s ! j)" using before by simp
    moreover have "j < length (workers s)" using that k len by simp
    ultimately show ?thesis by (simp add: Worker_steps_stays_stopped)
  qed
  moreover have "j < length (workers ?s1)" if "j < k" for j
    using that k len by (simp add: Worker_steps_length)
  ultimately show ?thesis
    unfolding steps by (simp add: Worker_steps_stays_stopped)
qed


lemma shutdown_from_patient:
  assumes "on_course l pc s" and "length (workers s) = n" and "l + n \<le> n_turns"
    and "entries_needed n pc \<le> m"
  shows "shutdown_from (replicate m (worker_turns n n_turns)) pc s \<noteq> None"
  using assms
proof (induction m arbitrary: pc s)
  case 0
  then show ?case by (cases pc) simp_all
next
  case (Suc m)
  let ?turns = "worker_turns n n_turns"
  let ?s = "Worker_steps ?turns s"
  have len: "length (workers ?s) = n"
    using Suc.prems(2) by (simp add: Worker_steps_length)
  have queue: "length (work_queue ?s) \<le> length (work_queue s)"
    by (rule Worker_steps_length_queue)
  have stay: "\<not> alive (workers ?s ! j)" if "j < n" "\<not> alive (workers s ! j)" for j
    using that Suc.prems(2) by (simp add: Worker_steps_stays_stopped)
  note IH = Suc.IH [OF _ _ Suc.prems(3)]
  show ?case
  proof (cases pc)
    case (For_worker k)
    with Suc.prems(1,2) have k: "k \<le> n"
      and before: "\<forall>j. Suc j < k \<longrightarrow> \<not> alive (workers s ! j)"
      and pending: "0 < k \<longrightarrow> \<not> alive (workers s ! (k - 1)) \<or> None \<in> set (work_queue s)"
      and bound: "length (work_queue s) \<le> l + k"
      by simp_all
    have "length (work_queue s) \<le> n_turns"
      using bound k Suc.prems(3) by simp
    with worker_turns_stop [OF Suc.prems(2) k before pending]
    have stopped: "\<forall>j<k. \<not> alive (workers ?s ! j)" by blast
    have bound': "length (work_queue ?s) \<le> l + k"
      using bound queue by simp
    show ?thesis
    proof (cases "k < n")
      case True
      show ?thesis
      proof (cases "alive (workers ?s ! k)")
        case True
        have "on_course l (Put_sentinel k) ?s"
          using \<open>k < n\<close> len stopped bound' by simp
        moreover have "entries_needed n (Put_sentinel k) \<le> m"
          using Suc.prems(4) For_worker by simp
        ultimately have "shutdown_from (replicate m ?turns) (Put_sentinel k) ?s \<noteq> None"
          using IH len by blast
        then show ?thesis
          using For_worker True \<open>k < n\<close> len by (simp add: Let_def)
      next
        case False
        have "on_course l (For_worker (Suc k)) ?s"
          using \<open>k < n\<close> len stopped bound' False by (auto simp: less_Suc_eq)
        moreover have "entries_needed n (For_worker (Suc k)) \<le> m"
          using Suc.prems(4) For_worker \<open>k < n\<close> by simp
        ultimately have "shutdown_from (replicate m ?turns) (For_worker (Suc k)) ?s \<noteq> None"
          using IH len by blast
        then show ?thesis
          using For_worker False \<open>k < n\<close> len by (simp add: Let_def)
      qed
    next
      case False
      then have "k = n" using k by simp
      then have "on_course l (Any_alive 0) ?s"
        using stopped len by simp
      moreover have "entries_needed n (Any_alive 0) \<le> m"
        using Suc.prems(4) For_worker by simp
      ultimately have "shutdown_from (replicate m ?turns) (Any_alive 0) ?s \<noteq> None"
        using IH len by blast
      then show ?thesis
        using For_worker False len by (simp add: Let_def)
    qed
  next
    case (Put_sentinel k)
    with Suc.prems(1,2) have k: "k < n"
      and before: "\<forall>j<k. \<not> alive (workers s ! j)"
      and bound: "length (work_queue s) \<le> l + k"
      by simp_all
    let ?put = "?s\<lparr>work_queue := work_queue ?s @ [None]\<rparr>"
    have "on_course l (For_worker (Suc k)) ?put"
      using k len before stay bound queue by (auto simp: less_Suc_eq)
    moreover have "entries_needed n (For_worker (Suc k)) \<le> m"
      using Suc.prems(4) Put_sentinel k by simp
    moreover have "length (workers ?put) = n"
      using len by simp
    ultimately have "shutdown_from (replicate m ?turns) (For_worker (Suc k)) ?put \<noteq> None"
      using IH by blast
    then show ?thesis
      using Put_sentinel by (simp add: Let_def)
  next
    case (Any_alive k)
    with Suc.prems(1,2) have all: "\<forall>j<n. \<not> alive (workers s ! j)"
      by simp
    then have all': "\<forall>j<n. \<not> alive (workers ?s ! j)"
      using stay by blast
    show ?thesis
    proof (cases "k < n")
      case True
      have "on_course l (Any_alive (Suc k)) ?s"
        using all' len by simp
      moreover have "entries_needed n (Any_alive (Suc k)) \<le> m"
        using Suc.prems(4) Any_alive True by simp
      ultimately have "shutdown_from (replicate m ?turns) (Any_alive (Suc k)) ?s \<noteq> None"
        using IH len by blast
      then show ?thesis
        using Any_alive True all' len by (simp add: Let_def)
    next
      case False
      then show ?thesis
        using Any_alive len by (simp add: Let_def)
    qed
  next
    case Sleep
    then show ?thesis using Suc.prems(1) by simp
  qed
qed

lemma shutdown_patient:
  "shutdown (patient_schedule s) s \<noteq> None"
proof -
  let ?n = "length (workers s)"
  let ?l = "length (work_queue s)"
  have "on_course ?l (For_worker 0) s"
    by simp
  moreover have "entries_needed ?n (For_worker 0) \<le> 3 * ?n + 2"
    by simp
  ultimately have "shutdown_from (replicate (3 * ?n + 2) (worker_turns ?n (?l + ?n))) (For_worker 0) s
      \<noteq> None"
    using shutdown_from_patient [of ?l "For_worker 0" s ?n "?l + ?n" "3 * ?n + 2"] by simp
  then show ?thesis
    by (simp add: shutdown_def patient_schedule_def Let_def)
qed

lemma released_resources_closed:
  "list_all (\<lambda>w. case bound_resource w of None \<Rightarrow> True | Some r \<Rightarrow> \<not> is_open r)
     (map release_resource ws)"
  by (induction ws) (auto simp: release_resource_def Resource_exit_def split: option.splits)

lemma released_workers_stopped:
  "list_all (\<lambda>w. \<not> alive w) ws \<Longrightarrow> list_all (\<lambda>w. \<not> alive w) (map release_resource ws)"
  by (induction ws) (auto simp: release_resource_def)

lemma shutdown_returned:
  assumes "shutdown schedule s = Some s'"
  shows "list_all (\<lambda>w. \<not> alive w) (workers s')"
    and "map bound_resource (workers s') = map bound_resource (workers s)"
    and "ThreadPoolExecutor.more s' = ThreadPoolExecutor.more s"
    and "\<exists>k n. work_queue s' = drop k (work_queue s @ replicate n None)"
proof -
  from assms have run: "shutdown_from schedule (For_worker 0) s = Some s'"
    by (simp add: shutdown_def)
  have "stopped_so_far (For_worker 0) s" by simp
  with run show "list_all (\<lambda>w. \<not> alive w) (workers s')"
    by (rule shutdown_from_all_stopped)
  from shutdown_from_frame [OF run]
  show "map bound_resource (workers s') = map bound_resource (workers s)"
    and "ThreadPoolExecutor.more s' = ThreadPoolExecutor.more s"
    and "\<exists>k n. work_queue s' = drop k (work_queue s @ replicate n None)"
    by blast+
qed

text \<open>
  Claim C7. Whenever \<open>shutdown\<close> returns, under any schedule of the workers' turns,
  every worker thread has ended, the workers hold the resources they held, and all
  that has been added to the queue is sentinels. Whenever \<open>close\<close> returns, \<open>shutdown\<close>
  has returned before, with every worker ended, no resource released yet and the pool
  not yet marked; the pool that \<open>close\<close> leaves is that one with every worker's resource
  released and the mark set. And both do return when the workers get their turns: under
  the patient schedule the sentinels reach every worker that is alive.
\<close>

theorem close_releases_after_workers_ended:
  "(shutdown schedule s = Some s' \<longrightarrow>
      list_all (\<lambda>w. \<not> alive w) (workers s')
      \<and> map bound_resource (workers s') = map bound_resource (workers s)
      \<and> (\<exists>k n. work_queue s' = drop k (work_queue s @ replicate n None)))
   \<and> (ResourceThreadPoolExecutor_close schedule self = Some self' \<longrightarrow>
      (\<exists>stopped.
         shutdown schedule self = Some stopped
         \<and> list_all (\<lambda>w. \<not> alive w) (workers stopped)
         \<and> map bound_resource (workers stopped) = map bound_resource (workers self)
         \<and> closed stopped = closed self
         \<and> self' = stopped\<lparr>workers := map release_resource (workers stopped), closed := True\<rparr>)
      \<and> closed self'
      \<and> list_all (\<lambda>w. \<not> alive w) (workers self')
      \<and> list_all (\<lambda>w. case bound_resource w of None \<Rightarrow> True | Some r \<Rightarrow> \<not> is_open r)
            (workers self'))
   \<and> shutdown (patient_schedule s) s \<noteq> None
   \<and> ResourceThreadPoolExecutor_close (patient_schedule self) self \<noteq> None"
proof -
  have third: "shutdown (patient_schedule s) s \<noteq> None"
    by (rule shutdown_patient)
  have fourth: "ResourceThreadPoolExecutor_close (patient_schedule self) self \<noteq> None"
    using shutdown_patient [of self]
    by (auto simp: ResourceThreadPoolExecutor_close_def ResourceThreadPoolExecutor_exit_def)
  have first: "shutdown schedule s = Some s' \<longrightarrow>
      list_all (\<lambda>w. \<not> alive w) (workers s')
      \<and> map bound_resource (workers s') = map bound_resource (workers s)
      \<and> (\<exists>k n. work_queue s' = drop k (work_queue s @ replicate n None))"
    using shutdown_returned [of schedule s s'] by blast
  have second: "(\<exists>stopped.
         shutdown schedule self = Some stopped
         \<and> list_all (\<lambda>w. \<not> alive w) (workers stopped)
         \<and> map bound_resource (workers stopped) = map bound_resource (workers self)
         \<and> closed stopped = closed self
         \<and> self' = stopped\<lparr>workers := map release_resource (workers stopped), closed := True\<rparr>)
      \<and> closed self'
      \<and> list_all (\<lambda>w. \<not> alive w) (workers self')
      \<and> list_all (\<lambda>w. case bound_resource w of None \<Rightarrow> True | Some r \<Rightarrow> \<not> is_open r)
            (workers self')"
    if close: "ResourceThreadPoolExecutor_close schedule self = Some self'"
  proof -
    from close obtain stopped where
      stopped: "shutdown schedule self = Some stopped"
      and self': "self' = stopped\<lparr>workers := map release_resource (workers stopped), closed := True\<rparr>"
      by (auto simp: ResourceThreadPoolExecutor_close_def ResourceThreadPoolExecutor_exit_def
               split: option.splits)
    have ended: "list_all (\<lambda>w. \<not> alive w) (workers stopped)"
      and held: "map bound_resource (workers stopped) = map bound_resource (workers self)"
      and more: "ThreadPoolExecutor.more stopped = ThreadPoolExecutor.more self"
      using shutdown_returned [OF stopped] by blast+
    have mark: "closed stopped = closed self"
      using more by (cases stopped, cases self) simp
    have "closed self'"
      using self' by simp
    moreover have "list_all (\<lambda>w. \<not> alive w) (workers self')"
      using self' ended by (simp add: released_workers_stopped)
    moreover have "list_all (\<lambda>w. case bound_resource w of None \<Rightarrow> True | Some r \<Rightarrow> \<not> is_open r)
            (workers self')"
      using self' by (simp add: released_resources_closed)
    ultimately show ?thesis
      using stopped ended held mark self' by blast
  qed
  from first second third fourth show ?thesis by blast
qed

theorem close_releases_after_workers_ended_witness:
  "shutdown example_schedule example_busy_pool = Some example_stopped_pool
   \<and> map alive (workers example_stopped_pool) = [False, False]
   \<and> ResourceThreadPoolExecutor_close example_schedule example_busy_pool
     = Some (example_stopped_pool
               \<lparr>workers :=
                  [\<lparr> alive = False,
                     bound_resource = Some \<lparr> file_path = ''sample.root'', is_open = False \<rparr> \<rparr>,
                   \<lparr> alive = False,
                     bound_resource = Some \<lparr> file_path = ''sample.root'', is_open = False \<rparr> \<rparr>],
                closed := True\<rparr>)
   \<and> ResourceThreadPoolExecutor_close (take 6 example_schedule) example_busy_pool = None"
proof -
  let ?closed = "example_stopped_pool
               \<lparr>workers :=
                  [\<lparr> alive = False,
                     bound_resource = Some \<lparr> file_path = ''sample.root'', is_open = False \<rparr> \<rparr>,
                   \<lparr> alive = False,
                     bound_resource = Some \<lparr> file_path = ''sample.root'', is_open = False \<rparr> \<rparr>],
                closed := True\<rparr>"
  have stop: "shutdown example_schedule example_busy_pool = Some example_stopped_pool"
    by (simp add: example_schedule_def example_busy_pool_def example_resource_pool_def
          example_stopped_pool_def example_heap_def shutdown_def Worker_steps_def Worker_step_def
          stop_worker_def lookup_def ResourceFuture_run_def ResourceFuture_init_def
          resource_task_def call_notify_def)
  have close: "ResourceThreadPoolExecutor_close example_schedule example_busy_pool = Some ?closed"
    unfolding ResourceThreadPoolExecutor_close_def ResourceThreadPoolExecutor_exit_def stop
    by (simp add: example_stopped_pool_def release_resource_def Resource_exit_def)
  have early: "ResourceThreadPoolExecutor_close (take 6 example_schedule) example_busy_pool = None"
    by (simp add: example_schedule_def example_busy_pool_def example_resource_pool_def
          ResourceThreadPoolExecutor_close_def ResourceThreadPoolExecutor_exit_def
          shutdown_def Worker_steps_def)
  note inst = close_releases_after_workers_ended
    [where schedule = example_schedule and s = example_busy_pool and s' = example_stopped_pool
       and self = example_busy_pool and self' = ?closed]
  have ended: "list_all (\<lambda>w. \<not> alive w) (workers example_stopped_pool)"
    using inst stop by blast
  have after: "list_all (\<lambda>w. \<not> alive w) (workers ?closed)" "closed ?closed"
    using inst close by blast+
  have "map alive (workers example_stopped_pool) = [False, False]"
    using ended by (simp add: example_stopped_pool_def)
  with stop close early after show ?thesis by simp
qed

section \<open>A task that fails in a worker\<close>

lemma Future_run_captures:
  assumes "apply_star (task self) (args self) = Inl e" and "is_Exception (exn_class e)"
  shows "Future_run self = (self\<lparr>excinfo := Some (sys_exc_info e), finished := True\<rparr>, None)"
  using assms by (simp add: Future_run_def)

lemma Future_run_lets_through:
  assumes "apply_star (task self) (args self) = Inl e" and "\<not> is_Exception (exn_class e)"
  shows "Future_run self = (self, Some e)"
  using assms by (simp add: Future_run_def)

lemma Future_run_caught:
  assumes "case apply_star (task self) (args self) of
             Inl e \<Rightarrow> is_Exception (exn_class e) | Inr v \<Rightarrow> True"
  shows "snd (Future_run self) = None"
  using assms by (auto simp: Future_run_def split: sum.splits)

lemma Worker_step_settles:
  assumes "i < length (workers s)" and "alive (workers s ! i)"
    and "bound_resource (workers s ! i) = None"
    and "work_queue s = Some ref # queue"
    and "lookup s ref = Some (A_Future future)"
    and "Future_run future = (future', None)"
  shows "Worker_step i s = s\<lparr>work_queue := queue, heap := (heap s)[ref := A_Future future']\<rparr>"
  using assms by (simp add: Worker_step_def)

lemma Worker_step_ends_thread:
  assumes "i < length (workers s)" and "alive (workers s ! i)"
    and "bound_resource (workers s ! i) = None"
    and "work_queue s = Some ref # queue"
    and "lookup s ref = Some (A_Future future)"
    and "Future_run future = (future', Some e)"
  shows "Worker_step i s
     = s\<lparr>work_queue := queue, heap := (heap s)[ref := A_Future future'],
         workers := stop_worker i (workers s)\<rparr>"
  using assms by (simp add: Worker_step_def)

lemma lookup_submit:
  assumes "ThreadPoolExecutor_submit t a s = (future, s')"
  shows "future = length (heap s)"
    and "lookup s' future = Some (A_Future (Future_init t (Some a)))"
    and "work_queue s' = work_queue s @ [Some future]"
    and "workers s' = workers s"
    and "ref < length (heap s) \<Longrightarrow> lookup s' ref = lookup s ref"
  using assms by (auto simp: ThreadPoolExecutor_submit_def Let_def lookup_def nth_append)

text \<open>
  Claim C5, as stated. A task that calls \<open>sys.exit()\<close> raises \<open>SystemExit\<close>, which
  \<open>except Exception\<close> does not catch: the exception leaves \<open>_run\<close> and the loop of the
  worker, the only thread of the pool ends, the future is never resolved (its
  \<open>result()\<close> does not return) and the task queued behind it is never run.
\<close>

theorem worker_ends_on_SystemExit_counterexample:
  "ThreadPoolExecutor_init 8 (Some 1) [] 0 = example_thread_pool
   \<and> ThreadPoolExecutor_submit increment_task 41
         (snd (ThreadPoolExecutor_submit exiting_task 41 example_thread_pool))
     = (1, example_exit_pool)
   \<and> map alive (workers example_exit_pool) = [True]
   \<and> Worker_step 0 example_exit_pool
     = example_exit_pool\<lparr>work_queue := [Some 1],
                           workers := [\<lparr> alive = False, bound_resource = None \<rparr>]\<rparr>
   \<and> lookup (Worker_step 0 example_exit_pool) 0
     = Some (A_Future (Future_init exiting_task (Some 41)))
   \<and> Future_result False (Future_init exiting_task (Some 41)) (None :: nat option) = None
   \<and> Worker_step 0 (Worker_step 0 example_exit_pool) = Worker_step 0 example_exit_pool"
proof -
  have built: "ThreadPoolExecutor_init 8 (Some 1) [] 0 = example_thread_pool"
    by (simp add: ThreadPoolExecutor_init_def example_thread_pool_def)
  have queued: "ThreadPoolExecutor_submit increment_task 41
         (snd (ThreadPoolExecutor_submit exiting_task 41 example_thread_pool))
     = (1, example_exit_pool)"
    by (simp add: ThreadPoolExecutor_submit_def example_thread_pool_def example_exit_pool_def)
  have run: "Future_run (Future_init exiting_task (Some 41))
      = (Future_init exiting_task (Some 41), Some (Exn SystemExit [] [7]))"
    by (simp add: Future_run_def Future_init_def apply_star_def exiting_task_def)
  have step: "Worker_step 0 example_exit_pool
     = example_exit_pool\<lparr>work_queue := [Some 1],
                           workers := [\<lparr> alive = False, bound_resource = None \<rparr>]\<rparr>"
    by (simp add: Worker_step_def example_exit_pool_def lookup_def run stop_worker_def)
  have found: "lookup (Worker_step 0 example_exit_pool) 0
     = Some (A_Future (Future_init exiting_task (Some 41)))"
    unfolding step by (simp add: lookup_def example_exit_pool_def)
  have blocked: "Future_result False (Future_init exiting_task (Some 41)) (None :: nat option) = None"
    by (simp add: Future_result_def Future_init_def Event_wait_def)
  have stuck: "Worker_step 0 (Worker_step 0 example_exit_pool) = Worker_step 0 example_exit_pool"
    unfolding step by (simp add: Worker_step_def example_exit_pool_def)
  have before: "map alive (workers example_exit_pool) = [True]"
    by (simp add: example_exit_pool_def)
  from built queued before step found blocked stuck show ?thesis by blast
qed

text \<open>
  Claim C5, amended. \<open>submit(t, a)\<close> makes a new future of the task and puts it at
  the end of the queue. Worker \<open>i\<close>, a plain worker that is alive, finds that future
  at the head of the queue. When the task raises an exception of
  a class derived from \<open>Exception\<close>, the worker records it in the future as
  \<open>sys.exc_info()\<close> gives it, sets the flag, and stays alive; \<open>result()\<close> of that
  future, whoever calls it and with whatever timeout, raises that same exception. In
  its next turn the worker runs the task queued behind: the future of that task then
  answers with the task's outcome, the first future still raises its exception, and
  the worker is still alive.
\<close>

theorem worker_captures_Exception_and_continues:
  assumes worker: "i < length (workers s)" "alive (workers s ! i)"
      "bound_resource (workers s ! i) = None"
    and head: "work_queue s = Some ref # queue"
    and submitted: "lookup s ref = Some (A_Future (Future_init t (Some a)))"
    and raises: "t a = Inl e" "is_Exception (exn_class e)"
  shows "(ThreadPoolExecutor_submit t a pool = (new, pool') \<longrightarrow>
          lookup pool' new = Some (A_Future (Future_init t (Some a)))
          \<and> work_queue pool' = work_queue pool @ [Some new]
          \<and> workers pool' = workers pool)
     \<and> alive (workers (Worker_step i s) ! i)
     \<and> work_queue (Worker_step i s) = queue
     \<and> (\<exists>failed. lookup (Worker_step i s) ref = Some (A_Future failed)
           \<and> finished failed \<and> excinfo failed = Some (sys_exc_info e)
           \<and> Future_result py_two failed timeout = Some (Inl e))
     \<and> (queue = Some ref' # queue' \<and> ref' \<noteq> ref
          \<and> lookup s ref' = Some (A_Future (Future_init t' (Some a')))
          \<and> (case t' a' of Inl e' \<Rightarrow> is_Exception (exn_class e') | Inr v \<Rightarrow> True) \<longrightarrow>
          alive (workers (Worker_step i (Worker_step i s)) ! i)
          \<and> work_queue (Worker_step i (Worker_step i s)) = queue'
          \<and> (\<exists>failed settled.
                lookup (Worker_step i (Worker_step i s)) ref = Some (A_Future failed)
                \<and> Future_result py_two failed timeout = Some (Inl e)
                \<and> lookup (Worker_step i (Worker_step i s)) ref' = Some (A_Future settled)
                \<and> finished settled
                \<and> Future_result py_two settled timeout
                    = Some (case t' a' of Inl e' \<Rightarrow> Inl e' | Inr v \<Rightarrow> Inr (Some v))))"
proof -
  let ?f1 = "Future_init t (Some a)"
  let ?f2 = "Future_init t' (Some a')"
  let ?failed = "?f1\<lparr>excinfo := Some (sys_exc_info e), finished := True\<rparr>"
  let ?s1 = "s\<lparr>work_queue := queue, heap := (heap s)[ref := A_Future ?failed]\<rparr>"
  have inside: "ref < length (heap s)"
    using submitted by (simp add: lookup_def split: if_splits)
  have run1: "Future_run ?f1 = (?failed, None)"
    using raises by (simp add: Future_run_captures Future_init_def apply_star_def)
  have step1: "Worker_step i s = ?s1"
    using worker head submitted run1 by (simp add: Worker_step_settles)
  have raised: "Future_result py_two ?failed timeout = Some (Inl e)"
    by (simp add: Future_result_finished sys_exc_info_def delayed_raise_exc_info)
  have found1: "lookup ?s1 ref = Some (A_Future ?failed)"
    using inside by (simp add: lookup_def)
  have alive1: "alive (workers ?s1 ! i)"
    using worker by simp
  have part1: "alive (workers (Worker_step i s) ! i)
     \<and> work_queue (Worker_step i s) = queue
     \<and> (\<exists>failed. lookup (Worker_step i s) ref = Some (A_Future failed)
           \<and> finished failed \<and> excinfo failed = Some (sys_exc_info e)
           \<and> Future_result py_two failed timeout = Some (Inl e))"
    unfolding step1 using alive1 found1 raised by simp
  have part2: "alive (workers (Worker_step i (Worker_step i s)) ! i)
          \<and> work_queue (Worker_step i (Worker_step i s)) = queue'
          \<and> (\<exists>failed settled.
                lookup (Worker_step i (Worker_step i s)) ref = Some (A_Future failed)
                \<and> Future_result py_two failed timeout = Some (Inl e)
                \<and> lookup (Worker_step i (Worker_step i s)) ref' = Some (A_Future settled)
                \<and> finished settled
                \<and> Future_result py_two settled timeout
                    = Some (case t' a' of Inl e' \<Rightarrow> Inl e' | Inr v \<Rightarrow> Inr (Some v)))"
    if behind: "queue = Some ref' # queue'" and other: "ref' \<noteq> ref"
      and submitted': "lookup s ref' = Some (A_Future ?f2)"
      and next_task: "case t' a' of Inl e' \<Rightarrow> is_Exception (exn_class e') | Inr v \<Rightarrow> True"
  proof -
    have inside': "ref' < length (heap s)"
      using submitted' by (simp add: lookup_def split: if_splits)
    have found2: "lookup ?s1 ref' = Some (A_Future ?f2)"
      using submitted' other inside' by (simp add: lookup_def)
    obtain settled where run2: "Future_run ?f2 = (settled, None)"
      using Future_run_caught [of ?f2] next_task
      by (cases "Future_run ?f2") (simp add: Future_init_def apply_star_def)
    have new2: "excinfo ?f2 = None"
      by (simp add: Future_init_def)
    have settled: "finished settled"
        "Future_result py_two settled timeout
           = Some (case t' a' of Inl e' \<Rightarrow> Inl e' | Inr v \<Rightarrow> Inr (Some v))"
      using Future_run_settles [OF run2 new2] by (simp_all add: Future_init_def apply_star_def)
    let ?s2 = "?s1\<lparr>work_queue := queue', heap := (heap ?s1)[ref' := A_Future settled]\<rparr>"
    have queue1: "work_queue ?s1 = Some ref' # queue'"
      using behind by simp
    have step2: "Worker_step i ?s1 = ?s2"
      using worker queue1 found2 run2 by (simp add: Worker_step_settles)
    have found1': "lookup ?s2 ref = Some (A_Future ?failed)"
      using inside other by (simp add: lookup_def)
    have found2': "lookup ?s2 ref' = Some (A_Future settled)"
      using inside' by (simp add: lookup_def)
    have alive2: "alive (workers ?s2 ! i)"
      using worker by simp
    show ?thesis
      unfolding step1 step2 using alive2 found1' found2' raised settled by auto
  qed
  have part0: "ThreadPoolExecutor_submit t a pool = (new, pool') \<longrightarrow>
          lookup pool' new = Some (A_Future (Future_init t (Some a)))
          \<and> work_queue pool' = work_queue pool @ [Some new]
          \<and> workers pool' = workers pool"
    using lookup_submit [of t a pool new pool'] by blast
  from part0 part1 part2 show ?thesis by blast
qed

theorem worker_captures_Exception_and_continues_witness:
  "ThreadPoolExecutor_submit failing_task 41 example_thread_pool
     = (0, example_thread_pool\<lparr>heap := [A_Future (Future_init failing_task (Some 41))],
                               work_queue := [Some 0]\<rparr>)
   \<and> ThreadPoolExecutor_submit increment_task 41
         (example_thread_pool\<lparr>heap := [A_Future (Future_init failing_task (Some 41))],
                               work_queue := [Some 0]\<rparr>)
     = (1, example_failing_pool)
   \<and> failing_task 41 = Inl (Exn ValueError ''bad value'' [7])
   \<and> alive (workers (Worker_step 0 example_failing_pool) ! 0)
   \<and> work_queue (Worker_step 0 example_failing_pool) = [Some 1]
   \<and> alive (workers (Worker_step 0 (Worker_step 0 example_failing_pool)) ! 0)
   \<and> work_queue (Worker_step 0 (Worker_step 0 example_failing_pool)) = []
   \<and> (\<exists>failed settled.
         lookup (Worker_step 0 (Worker_step 0 example_failing_pool)) 0 = Some (A_Future failed)
         \<and> Future_result False failed (Some (2 :: nat)) = Some (Inl (Exn ValueError ''bad value'' [7]))
         \<and> lookup (Worker_step 0 (Worker_step 0 example_failing_pool)) 1 = Some (A_Future settled)
         \<and> Future_result False settled (Some (2 :: nat)) = Some (Inr (Some 42)))"
proof -
  let ?s1 = "example_thread_pool\<lparr>heap := [A_Future (Future_init failing_task (Some 41))],
                               work_queue := [Some 0]\<rparr>"
  have first: "ThreadPoolExecutor_submit failing_task 41 example_thread_pool = (0, ?s1)"
    by (simp add: ThreadPoolExecutor_submit_def example_thread_pool_def)
  have second: "ThreadPoolExecutor_submit increment_task 41 ?s1 = (1, example_failing_pool)"
    by (simp add: ThreadPoolExecutor_submit_def example_thread_pool_def example_failing_pool_def)
  have worker: "0 < length (workers example_failing_pool)"
      "alive (workers example_failing_pool ! 0)"
      "bound_resource (workers example_failing_pool ! 0) = None"
    and head: "work_queue example_failing_pool = Some 0 # [Some 1]"
    and submitted: "lookup example_failing_pool 0 = Some (A_Future (Future_init failing_task (Some 41)))"
    and submitted': "lookup example_failing_pool 1 = Some (A_Future (Future_init increment_task (Some 41)))"
    by (simp_all add: example_failing_pool_def lookup_def)
  have raises: "failing_task 41 = Inl (Exn ValueError ''bad value'' [7])"
      "is_Exception (exn_class (Exn ValueError ''bad value'' [7]))"
    by (simp_all add: failing_task_def)
  have next_task: "case increment_task 41 of Inl e' \<Rightarrow> is_Exception (exn_class e') | Inr v \<Rightarrow> True"
    by (simp add: increment_task_def)
  have outcome: "(case increment_task 41 of Inl e' \<Rightarrow> Inl e' | Inr v \<Rightarrow> Inr (Some v))
      = (Inr (Some 42) :: py_exception + int option)"
    by (simp add: increment_task_def)
  note run = worker_captures_Exception_and_continues
    [OF worker head submitted raises,
     where pool = example_thread_pool and new = 0 and pool' = ?s1 and py_two = False and timeout = "Some (2 :: nat)" and ref' = 1 and queue' = "[]"
       and t' = increment_task and a' = 41]
  from run first submitted' next_task outcome have
    "alive (workers (Worker_step 0 example_failing_pool) ! 0)"
    "work_queue (Worker_step 0 example_failing_pool) = [Some 1]"
    "alive (workers (Worker_step 0 (Worker_step 0 example_failing_pool)) ! 0)"
    "work_queue (Worker_step 0 (Worker_step 0 example_failing_pool)) = []"
    "\<exists>failed settled.
         lookup (Worker_step 0 (Worker_step 0 example_failing_pool)) 0 = Some (A_Future failed)
         \<and> Future_result False failed (Some (2 :: nat)) = Some (Inl (Exn ValueError ''bad value'' [7]))
         \<and> lookup (Worker_step 0 (Worker_step 0 example_failing_pool)) 1 = Some (A_Future settled)
         \<and> Future_result False settled (Some (2 :: nat)) = Some (Inr (Some 42))"
    by auto
  with first second raises(1) show ?thesis by blast
qed

end
